theory Spec2Isabelle
  imports Main
begin

section \<open>Global activity tracker (global-signals-http-tracking.ts)\<close>

text \<open>
  The class \<^verbatim>\<open>GlobalHttpTracker\<close> holds two signals: the set of pending identifiers and
  the last error message. A signal is a mutable cell that is read synchronously, so the
  object is a record and every method returns the updated record. The message type is a
  parameter: the declaration says \<^verbatim>\<open>string\<close>, but TypeScript does not check it at run
  time and one of the two controller files passes the producer's raw failure value.
\<close>

record 'm GlobalHttpTracker =
  pending_sig :: "string set"
  lastError_sig :: "'m option"

definition new_tracker :: "'m GlobalHttpTracker" where
  "new_tracker = \<lparr>pending_sig = {}, lastError_sig = None\<rparr>"

definition pendingCount :: "'m GlobalHttpTracker \<Rightarrow> nat" where
  "pendingCount t = card (pending_sig t)"

definition isAnyLoading :: "'m GlobalHttpTracker \<Rightarrow> bool" where
  "isAnyLoading t = (pendingCount t > 0)"

definition lastError :: "'m GlobalHttpTracker \<Rightarrow> 'm option" where
  "lastError t = lastError_sig t"

definition tracker_begin :: "string \<Rightarrow> 'm GlobalHttpTracker \<Rightarrow> 'm GlobalHttpTracker" where
  "tracker_begin ident t = t\<lparr>pending_sig := insert ident (pending_sig t)\<rparr>"

definition tracker_success :: "string \<Rightarrow> 'm GlobalHttpTracker \<Rightarrow> 'm GlobalHttpTracker" where
  "tracker_success ident t = t\<lparr>pending_sig := pending_sig t - {ident}\<rparr>"

definition tracker_error :: "string \<Rightarrow> 'm \<Rightarrow> 'm GlobalHttpTracker \<Rightarrow> 'm GlobalHttpTracker" where
  "tracker_error ident msg t =
     t\<lparr>pending_sig := pending_sig t - {ident}, lastError_sig := Some msg\<rparr>"

definition clearError :: "'m GlobalHttpTracker \<Rightarrow> 'm GlobalHttpTracker" where
  "clearError t = t\<lparr>lastError_sig := None\<rparr>"

section \<open>JavaScript values\<close>

text \<open>
  Arguments, results and failure values are untyped at run time. The values the code
  inspects are strings and objects with named fields, so that much of JavaScript is
  modelled. \<open>get_prop v p\<close> is the property read \<^verbatim>\<open>v?.p\<close>: a missing field, a
  primitive and a nullish value all give \<^verbatim>\<open>undefined\<close>.
\<close>

datatype jsval =
    JUndefined
  | JNull
  | JBool bool
  | JNum int
  | JStr string
  | JObj "(string \<times> jsval) list"

fun get_prop :: "jsval \<Rightarrow> string \<Rightarrow> jsval" where
  "get_prop (JObj fs) p = (case map_of fs p of Some v \<Rightarrow> v | None \<Rightarrow> JUndefined)"
| "get_prop v p = JUndefined"

fun typeof_string :: "jsval \<Rightarrow> bool" where
  "typeof_string (JStr m) = True"
| "typeof_string v = False"

fun string_of :: "jsval \<Rightarrow> string" where
  "string_of (JStr m) = m"
| "string_of v = []"

text \<open>
  \<^verbatim>\<open>extractErrorMessage\<close> (second controller file, lines 178-187). Both tests first
  compare \<^verbatim>\<open>err?.name\<close> with \<^verbatim>\<open>'HttpErrorResponse'\<close>; \<open>string_of\<close> is only
  applied under the guard \<open>typeof_string\<close>. The \<^verbatim>\<open>console.error\<close> call is recorded
  by the caller as an effect.
\<close>

definition extractErrorMessage :: "jsval \<Rightarrow> string" where
  "extractErrorMessage err =
     (let errorMsg = [] in
      if get_prop err ''name'' = JStr ''HttpErrorResponse'' \<and> typeof_string (get_prop err ''error'')
      then string_of (get_prop err ''error'')
      else if get_prop err ''name'' = JStr ''HttpErrorResponse''
              \<and> typeof_string (get_prop (get_prop err ''error'') ''error'')
      then string_of (get_prop (get_prop err ''error'') ''error'')
      else errorMsg)"

section \<open>Action lifecycle controller\<close>

subsection \<open>Data\<close>

datatype AsyncStatus = Idle | Loading | Success | Error

text \<open>
  Callbacks are opaque functions of the caller; each is named by a number and calling it
  is recorded as an effect. The closure that \<^verbatim>\<open>continueWith\<close> stores in the success
  slot remembers the previous success handler and the follow-up function.
\<close>

datatype success_handler = Callback nat | Chained "success_handler option" nat

record handlers =
  loading_h :: "nat option"
  success_h :: "success_handler option"
  error_h :: "nat option"
  finally_h :: "nat option"

definition no_handlers :: handlers where
  "no_handlers = \<lparr>loading_h = None, success_h = None, error_h = None, finally_h = None\<rparr>"

record ActionOptions =
  track :: "bool option"
  debounceMs :: "int option"
  onLoading :: "nat option"
  onSuccess :: "nat option"
  onError :: "nat option"

text \<open>
  The repository holds two versions of the controller file. They share the interfaces,
  the debounce pipeline and the subscriber; they differ in where the handler object
  lives, in whether \<^verbatim>\<open>run\<close> defers the dispatch with \<^verbatim>\<open>setTimeout\<close>, and in the
  failure value they report. \<open>Part000\<close> is the file with \<^verbatim>\<open>currentHandlers\<close> and
  \<^verbatim>\<open>setTimeout\<close>, \<open>Part001\<close> the file with \<^verbatim>\<open>extractErrorMessage\<close>.

  The producer is the observable that \<^verbatim>\<open>getObservable(...args)\<close> returns. What it
  emits is a value (\<^verbatim>\<open>next\<close>) or a failure (\<^verbatim>\<open>error\<close>), and it may emit after its
  \<^verbatim>\<open>subscribe\<close> call has returned or inside that call. \<open>Single\<close> is a producer given to
  \<^verbatim>\<open>createSignalAction\<close> that emits after \<^verbatim>\<open>subscribe\<close> has returned, as an HTTP
  request does. \<open>Synchronous g\<close> is a producer given to \<^verbatim>\<open>createSignalAction\<close> that
  emits the outcomes \<open>g args\<close>, in this order, inside its \<^verbatim>\<open>subscribe\<close> call, as
  \<^verbatim>\<open>of(1, 2)\<close> does; a failure ends it, and with no outcome to emit there it is a
  producer like \<open>Single\<close>. \<open>ForkJoin f\<close> is the producer
  \<^verbatim>\<open>forkJoin(observablesFn(request))\<close> of \<^verbatim>\<open>createSignalForkJoinAction\<close>, where
  \<open>f\<close> gives the names of the sub-producers for a request.
\<close>

datatype source_file = Part000 | Part001

datatype outcome = Value jsval | Failure jsval

datatype producer =
    Single
  | Synchronous "jsval list \<Rightarrow> outcome list"
  | ForkJoin "jsval list \<Rightarrow> string list"

record controller =
  source :: source_file
  getObservable :: producer
  options :: ActionOptions

datatype effect =
    StatusSet AsyncStatus
  | ErrorSet "jsval option"
  | Subscribe "jsval list"
  | OptionsOnLoading nat "jsval list"
  | OptionsOnSuccess nat jsval "jsval list"
  | OptionsOnError nat jsval "jsval list"
  | HandlerLoading nat "jsval list"
  | HandlerSuccess nat jsval "jsval list"
  | NextActionFn nat jsval "jsval list"
  | HandlerError nat jsval "jsval list"
  | HandlerFinally nat
  | ConsoleError string

text \<open>
  What \<^verbatim>\<open>executeObservable\<close> closes over for one invocation: the arguments, the
  handler object (a reference into the heap), the identifier drawn for the tracker and,
  for a fork-join producer, the names awaited and the values received so far.
  \<open>inv_no\<close> numbers the invocations of a controller in dispatch order.
\<close>

record invocation =
  inv_no :: nat
  inv_args :: "jsval list"
  inv_handlers :: nat
  inv_id :: string
  inv_keys :: "string list"
  inv_values :: "(string \<times> jsval) list"

datatype subscription = Pipeline | Execution nat

text \<open>
  The state of one controller and of the part of the JavaScript run time it uses: the
  virtual clock in milliseconds, the two signals, the tracker, \<^verbatim>\<open>currentSub\<close>, the
  state of the operators \<^verbatim>\<open>debounceTime\<close> (due time and latest value) and
  \<^verbatim>\<open>switchMap\<close> (inner subscription), the handler objects by reference, the live
  producer subscriptions, the pending \<^verbatim>\<open>setTimeout(..., 0)\<close> callbacks, the microtask
  queue and the trace of effects (time, invocation, effect). A producer subscription is
  in \<open>subs\<close> from the moment the subscriber function of \<^verbatim>\<open>executeObservable\<close> has
  returned its teardown \<^verbatim>\<open>() => sub.unsubscribe()\<close> until that teardown runs.
\<close>

record state =
  now :: nat
  status :: AsyncStatus
  error :: "jsval option"
  tracker :: "jsval GlobalHttpTracker"
  currentSub :: "subscription option"
  switchMap_inner :: "nat option"
  debounceTime_pending :: "(nat \<times> jsval list) option"
  currentHandlers :: nat
  heap :: "nat \<Rightarrow> handlers"
  next_ref :: nat
  uuids :: nat
  subs :: "nat \<Rightarrow> invocation option"
  timeouts :: "(nat \<times> jsval list) list"
  microtasks :: "(nat \<times> jsval list \<times> nat) list"
  trace :: "(nat \<times> nat \<times> effect) list"

definition isLoading :: "state \<Rightarrow> bool" where
  "isLoading s = (status s = Loading)"

definition isSuccess :: "state \<Rightarrow> bool" where
  "isSuccess s = (status s = Success)"

definition isError :: "state \<Rightarrow> bool" where
  "isError s = (status s = Error)"

text \<open>The tests \<^verbatim>\<open>if (options.debounceMs)\<close> and \<^verbatim>\<open>options.track !== false\<close>.\<close>

definition debounced :: "ActionOptions \<Rightarrow> bool" where
  "debounced opts = (case debounceMs opts of None \<Rightarrow> False | Some ms \<Rightarrow> ms \<noteq> 0)"

definition tracked :: "ActionOptions \<Rightarrow> bool" where
  "tracked opts = (track opts \<noteq> Some False)"

text \<open>
  \<^verbatim>\<open>crypto.randomUUID()\<close>: the n-th identifier drawn. Distinct draws give distinct
  strings; the text of the identifier plays no part.
\<close>

definition randomUUID :: "nat \<Rightarrow> string" where
  "randomUUID n = ''uuid-'' @ replicate n (CHR ''i'')"

definition createBaseAction :: "controller \<Rightarrow> jsval GlobalHttpTracker \<Rightarrow> state" where
  "createBaseAction c tr =
     \<lparr>now = 0, status = Idle, error = None, tracker = tr,
      currentSub = (if debounced (options c) then Some Pipeline else None),
      switchMap_inner = None, debounceTime_pending = None,
      currentHandlers = 0, heap = (\<lambda>r. no_handlers), next_ref = 1,
      uuids = 0, subs = (\<lambda>n. None), timeouts = [], microtasks = [], trace = []\<rparr>"

text \<open>
  \<^verbatim>\<open>createSignalAction(observableFn, options)\<close> passes its two arguments on to
  \<^verbatim>\<open>createBaseAction\<close>. \<open>createSignalAction\<close> is the call with a producer that emits
  after \<^verbatim>\<open>subscribe\<close> has returned, \<open>createSignalAction_sync\<close> the call with a producer
  that emits inside \<^verbatim>\<open>subscribe\<close>.
\<close>

definition createSignalAction :: "source_file \<Rightarrow> ActionOptions \<Rightarrow> controller" where
  "createSignalAction f opts = \<lparr>source = f, getObservable = Single, options = opts\<rparr>"

definition createSignalAction_sync ::
  "source_file \<Rightarrow> (jsval list \<Rightarrow> outcome list) \<Rightarrow> ActionOptions \<Rightarrow> controller" where
  "createSignalAction_sync f observableFn opts =
     \<lparr>source = f, getObservable = Synchronous observableFn, options = opts\<rparr>"

definition createSignalForkJoinAction ::
  "source_file \<Rightarrow> (jsval list \<Rightarrow> string list) \<Rightarrow> ActionOptions \<Rightarrow> controller" where
  "createSignalForkJoinAction f observablesFn opts =
     \<lparr>source = f, getObservable = ForkJoin observablesFn, options = opts\<rparr>"

text \<open>
  The two actions of the README, used as examples: \<^verbatim>\<open>fetchUser\<close> with controller-level
  success and error callbacks, and \<^verbatim>\<open>getUserData\<close> over the named producers
  \<^verbatim>\<open>user\<close> and \<^verbatim>\<open>posts\<close>.
\<close>

definition getUserData :: "source_file \<Rightarrow> controller" where
  "getUserData f =
     createSignalForkJoinAction f (\<lambda>request. [''user'', ''posts''])
       \<lparr>track = None, debounceMs = None, onLoading = None, onSuccess = Some 1, onError = Some 2\<rparr>"

definition fetchUser :: "source_file \<Rightarrow> controller" where
  "fetchUser f =
     createSignalAction f
       \<lparr>track = None, debounceMs = None, onLoading = None, onSuccess = Some 1, onError = Some 2\<rparr>"

subsection \<open>Effects\<close>

definition emit :: "nat \<Rightarrow> effect list \<Rightarrow> state \<Rightarrow> state" where
  "emit n es s = s\<lparr>trace := trace s @ map (\<lambda>e. (now s, n, e)) es\<rparr>"

definition status_set :: "nat \<Rightarrow> AsyncStatus \<Rightarrow> state \<Rightarrow> state" where
  "status_set n st s = emit n [StatusSet st] (s\<lparr>status := st\<rparr>)"

definition error_set :: "nat \<Rightarrow> jsval option \<Rightarrow> state \<Rightarrow> state" where
  "error_set n e s = emit n [ErrorSet e] (s\<lparr>error := e\<rparr>)"

text \<open>An optional call \<^verbatim>\<open>cb?.(...)\<close>: nothing happens when the slot is empty.\<close>

definition optional_call :: "(nat \<Rightarrow> effect) \<Rightarrow> nat option \<Rightarrow> effect list" where
  "optional_call f slot = (case slot of None \<Rightarrow> [] | Some cb \<Rightarrow> [f cb])"

fun call_success :: "success_handler \<Rightarrow> jsval \<Rightarrow> jsval list \<Rightarrow> effect list" where
  "call_success (Callback cb) d as = [HandlerSuccess cb d as]"
| "call_success (Chained None fn) d as = [NextActionFn fn d as]"
| "call_success (Chained (Some orig) fn) d as = call_success orig d as @ [NextActionFn fn d as]"

definition optional_success :: "success_handler option \<Rightarrow> jsval \<Rightarrow> jsval list \<Rightarrow> effect list" where
  "optional_success slot d as = (case slot of None \<Rightarrow> [] | Some h \<Rightarrow> call_success h d as)"

subsection \<open>executeObservable\<close>

text \<open>
  The synchronous part of \<^verbatim>\<open>executeObservable\<close>: it sets the two signals, draws the
  identifier, tells the tracker and queues the loading notification as a microtask. The
  first file reads the handler object from the shared variable \<^verbatim>\<open>currentHandlers\<close>;
  the second file creates a new, empty handler object of its own.
\<close>

definition executeObservable0 :: "controller \<Rightarrow> jsval list \<Rightarrow> state \<Rightarrow> state \<times> invocation" where
  "executeObservable0 c args s0 =
     (let handlers = currentHandlers s0;
          n = uuids s0;
          s1 = status_set n Loading s0;
          s2 = error_set n None s1;
          ident = randomUUID n;
          s3 = s2\<lparr>uuids := Suc n\<rparr>;
          s4 = (if track (options c) \<noteq> Some False
                then s3\<lparr>tracker := tracker_begin ident (tracker s3)\<rparr> else s3);
          s5 = s4\<lparr>microtasks := microtasks s4 @ [(n, args, handlers)]\<rparr>
      in (s5, \<lparr>inv_no = n, inv_args = args, inv_handlers = handlers, inv_id = ident,
                inv_keys = [], inv_values = []\<rparr>))"

definition executeObservable1 :: "controller \<Rightarrow> jsval list \<Rightarrow> state \<Rightarrow> state \<times> invocation" where
  "executeObservable1 c args s0 =
     (let handlers = next_ref s0;
          sh = s0\<lparr>heap := (heap s0)(handlers := no_handlers), next_ref := Suc handlers\<rparr>;
          n = uuids sh;
          s1 = status_set n Loading sh;
          s2 = error_set n None s1;
          ident = randomUUID n;
          s3 = s2\<lparr>uuids := Suc n\<rparr>;
          s4 = (if track (options c) \<noteq> Some False
                then s3\<lparr>tracker := tracker_begin ident (tracker s3)\<rparr> else s3);
          s5 = s4\<lparr>microtasks := microtasks s4 @ [(n, args, handlers)]\<rparr>
      in (s5, \<lparr>inv_no = n, inv_args = args, inv_handlers = handlers, inv_id = ident,
                inv_keys = [], inv_values = []\<rparr>))"

definition executeObservable :: "controller \<Rightarrow> jsval list \<Rightarrow> state \<Rightarrow> state \<times> invocation" where
  "executeObservable c args s =
     (case source c of
        Part000 \<Rightarrow> executeObservable0 c args s
      | Part001 \<Rightarrow> executeObservable1 c args s)"

text \<open>
  \<^verbatim>\<open>subscriber.complete()\<close> closes the subscriber of the invocation: the teardown
  that is registered for it runs and unsubscribes from the producer, and
  \<^verbatim>\<open>switchMap\<close> forgets a completed inner subscription. While the producer is still
  inside its \<^verbatim>\<open>subscribe\<close> call no teardown is registered (the subscription is not in
  \<open>subs\<close> yet), so there is nothing to unsubscribe and the callbacks stay reachable for
  what the producer emits next; see \<open>emitted\<close> and \<open>subscribe\<close> below.
\<close>

definition complete :: "nat \<Rightarrow> state \<Rightarrow> state" where
  "complete n s =
     s\<lparr>subs := (subs s)(n := None),
       switchMap_inner := (if switchMap_inner s = Some n then None else switchMap_inner s)\<rparr>"

text \<open>
  The \<^verbatim>\<open>next\<close> callback of the subscriber, the same in both files; \<open>n\<close> is the
  subscription the callback belongs to.
\<close>

definition next_cb :: "controller \<Rightarrow> nat \<Rightarrow> invocation \<Rightarrow> jsval \<Rightarrow> state \<Rightarrow> state" where
  "next_cb c n iv data s0 =
     (let s1 = status_set n Success s0;
          s2 = (if track (options c) \<noteq> Some False
                then s1\<lparr>tracker := tracker_success (inv_id iv) (tracker s1)\<rparr> else s1);
          s3 = emit n (optional_call (\<lambda>cb. OptionsOnSuccess cb data (inv_args iv))
                         (onSuccess (options c))) s2;
          s4 = emit n (optional_success (success_h (heap s3 (inv_handlers iv)))
                         data (inv_args iv)) s3;
          s5 = emit n (optional_call HandlerFinally (finally_h (heap s4 (inv_handlers iv)))) s4
      in complete n s5)"

text \<open>
  The \<^verbatim>\<open>error\<close> callback of the subscriber. The first file passes the failure value on
  as it is; the second file passes the string that \<^verbatim>\<open>extractErrorMessage\<close> returns.
\<close>

definition error_cb0 :: "controller \<Rightarrow> nat \<Rightarrow> invocation \<Rightarrow> jsval \<Rightarrow> state \<Rightarrow> state" where
  "error_cb0 c n iv err s0 =
     (let s1 = error_set n (Some err) s0;
          s2 = status_set n Error s1;
          s3 = (if track (options c) \<noteq> Some False
                then s2\<lparr>tracker := tracker_error (inv_id iv) err (tracker s2)\<rparr> else s2);
          s4 = emit n (optional_call (\<lambda>cb. OptionsOnError cb err (inv_args iv))
                         (onError (options c))) s3;
          s5 = emit n (optional_call (\<lambda>cb. HandlerError cb err (inv_args iv))
                         (error_h (heap s4 (inv_handlers iv)))) s4;
          s6 = emit n (optional_call HandlerFinally (finally_h (heap s5 (inv_handlers iv)))) s5
      in complete n s6)"

definition error_cb1 :: "controller \<Rightarrow> nat \<Rightarrow> invocation \<Rightarrow> jsval \<Rightarrow> state \<Rightarrow> state" where
  "error_cb1 c n iv err s0 =
     (let msg = extractErrorMessage err;
          sc = emit n [ConsoleError msg] s0;
          s1 = error_set n (Some (JStr msg)) sc;
          s2 = status_set n Error s1;
          s3 = (if track (options c) \<noteq> Some False
                then s2\<lparr>tracker := tracker_error (inv_id iv) (JStr msg) (tracker s2)\<rparr> else s2);
          s4 = emit n (optional_call (\<lambda>cb. OptionsOnError cb (JStr msg) (inv_args iv))
                         (onError (options c))) s3;
          s5 = emit n (optional_call (\<lambda>cb. HandlerError cb (JStr msg) (inv_args iv))
                         (error_h (heap s4 (inv_handlers iv)))) s4;
          s6 = emit n (optional_call HandlerFinally (finally_h (heap s5 (inv_handlers iv)))) s5
      in complete n s6)"

definition error_cb :: "controller \<Rightarrow> nat \<Rightarrow> invocation \<Rightarrow> jsval \<Rightarrow> state \<Rightarrow> state" where
  "error_cb c n iv err s =
     (case source c of
        Part000 \<Rightarrow> error_cb0 c n iv err s
      | Part001 \<Rightarrow> error_cb1 c n iv err s)"

text \<open>
  What a producer emits inside its \<^verbatim>\<open>subscribe\<close> call reaches the two callbacks one
  after the other. \<^verbatim>\<open>subscriber.complete()\<close> in the \<^verbatim>\<open>next\<close> callback cannot stop the
  producer, because the teardown is only returned after the call; a failure ends the
  producer itself.
\<close>

fun emitted :: "controller \<Rightarrow> invocation \<Rightarrow> outcome list \<Rightarrow> state \<Rightarrow> state" where
  "emitted c iv [] s = s"
| "emitted c iv (Value d # outs) s = emitted c iv outs (next_cb c (inv_no iv) iv d s)"
| "emitted c iv (Failure e # outs) s = error_cb c (inv_no iv) iv e s"

text \<open>
  Subscribing to the observable that \<^verbatim>\<open>executeObservable\<close> returns runs its subscriber
  function: the producer is called with the arguments and subscribed to, and what it
  emits inside that call is handled there. For a fork-join producer the names of the
  request's sub-producers are fixed at this point. Then the subscriber function returns
  the teardown. If the subscriber was completed meanwhile (an outcome was handled), the
  teardown runs at once and the producer is unsubscribed; otherwise the producer
  subscription is live from now on.
\<close>

definition subscribe :: "controller \<Rightarrow> invocation \<Rightarrow> state \<Rightarrow> state" where
  "subscribe c iv s =
     (let keys = (case getObservable c of
                    Single \<Rightarrow> [] | Synchronous g \<Rightarrow> [] | ForkJoin f \<Rightarrow> f (inv_args iv));
          outs = (case getObservable c of
                    Single \<Rightarrow> [] | Synchronous g \<Rightarrow> g (inv_args iv) | ForkJoin f \<Rightarrow> []);
          s1 = emit (inv_no iv) [Subscribe (inv_args iv)] s;
          s2 = emitted c iv outs s1
      in if outs = []
         then s2\<lparr>subs := (subs s2)(inv_no iv := Some (iv\<lparr>inv_keys := keys, inv_values := []\<rparr>))\<rparr>
         else s2)"

subsection \<open>Dispatch\<close>

text \<open>
  \<^verbatim>\<open>Subscription.unsubscribe\<close> on \<^verbatim>\<open>currentSub\<close>. Only the branch without debounce
  calls it, where \<^verbatim>\<open>currentSub\<close> is null or the subscription of an earlier
  \<^verbatim>\<open>executeObservable\<close>; unsubscribing a closed subscription does nothing.
\<close>

definition unsubscribe :: "subscription option \<Rightarrow> state \<Rightarrow> state" where
  "unsubscribe sub s =
     (case sub of
        Some (Execution n) \<Rightarrow> s\<lparr>subs := (subs s)(n := None)\<rparr>
      | Some Pipeline \<Rightarrow> s
      | None \<Rightarrow> s)"

text \<open>
  The branch without debounce:
  \<^verbatim>\<open>if (currentSub) currentSub.unsubscribe(); currentSub = executeObservable(...args).subscribe();\<close>
\<close>

definition execute_now :: "controller \<Rightarrow> jsval list \<Rightarrow> state \<Rightarrow> state" where
  "execute_now c args s0 =
     (let s1 = unsubscribe (currentSub s0) s0;
          (s2, iv) = executeObservable c args s1;
          s3 = subscribe c iv s2
      in s3\<lparr>currentSub := Some (Execution (inv_no iv))\<rparr>)"

text \<open>
  \<^verbatim>\<open>runSubject.next(args)\<close> reaches \<^verbatim>\<open>debounceTime(ms)\<close>, which keeps the latest value
  and restarts its timer. When the timer fires the value reaches \<^verbatim>\<open>switchMap\<close>, which
  unsubscribes from its inner observable, calls \<^verbatim>\<open>executeObservable\<close>, notes the new
  inner subscriber and subscribes it to the result.
\<close>

definition runSubject_next :: "controller \<Rightarrow> jsval list \<Rightarrow> state \<Rightarrow> state" where
  "runSubject_next c args s =
     (case debounceMs (options c) of
        None \<Rightarrow> s
      | Some ms \<Rightarrow> s\<lparr>debounceTime_pending := Some (now s + nat ms, args)\<rparr>)"

definition switchMap_next :: "controller \<Rightarrow> jsval list \<Rightarrow> state \<Rightarrow> state" where
  "switchMap_next c args s0 =
     (let s1 = (case switchMap_inner s0 of
                  Some n \<Rightarrow> s0\<lparr>subs := (subs s0)(n := None)\<rparr>
                | None \<Rightarrow> s0);
          (s2, iv) = executeObservable c args s1;
          s3 = s2\<lparr>switchMap_inner := Some (inv_no iv)\<rparr>
      in subscribe c iv s3)"

subsection \<open>run and the handler chain\<close>

text \<open>
  First file: \<^verbatim>\<open>run\<close> replaces \<^verbatim>\<open>currentHandlers\<close> by a new object and defers the
  dispatch with \<^verbatim>\<open>setTimeout(..., 0)\<close>; \<open>timeout_cb\<close> is the deferred callback. Second
  file: \<^verbatim>\<open>run\<close> creates a local handler object and dispatches at once. Both return the
  chain object, named here by the reference of the handler object created.
\<close>

definition run0 :: "controller \<Rightarrow> jsval list \<Rightarrow> state \<Rightarrow> state \<times> nat" where
  "run0 c args s0 =
     (let r = next_ref s0;
          s1 = s0\<lparr>heap := (heap s0)(r := no_handlers), next_ref := Suc r, currentHandlers := r\<rparr>;
          s2 = s1\<lparr>timeouts := timeouts s1 @ [(now s1, args)]\<rparr>
      in (s2, r))"

definition timeout_cb :: "controller \<Rightarrow> jsval list \<Rightarrow> state \<Rightarrow> state" where
  "timeout_cb c args s =
     (if debounced (options c) then runSubject_next c args s else execute_now c args s)"

definition run1 :: "controller \<Rightarrow> jsval list \<Rightarrow> state \<Rightarrow> state \<times> nat" where
  "run1 c args s0 =
     (let r = next_ref s0;
          s1 = s0\<lparr>heap := (heap s0)(r := no_handlers), next_ref := Suc r\<rparr>;
          s2 = (if debounced (options c) then runSubject_next c args s1
                else execute_now c args s1)
      in (s2, r))"

definition run :: "controller \<Rightarrow> jsval list \<Rightarrow> state \<Rightarrow> state \<times> nat" where
  "run c args s = (case source c of Part000 \<Rightarrow> run0 c args s | Part001 \<Rightarrow> run1 c args s)"

datatype chain_call =
    OnLoading nat
  | OnSuccess nat
  | OnError nat
  | Finally nat
  | ContinueWith nat

fun chain_set :: "chain_call \<Rightarrow> handlers \<Rightarrow> handlers" where
  "chain_set (OnLoading cb) h = h\<lparr>loading_h := Some cb\<rparr>"
| "chain_set (OnSuccess cb) h = h\<lparr>success_h := Some (Callback cb)\<rparr>"
| "chain_set (OnError cb) h = h\<lparr>error_h := Some cb\<rparr>"
| "chain_set (Finally cb) h = h\<lparr>finally_h := Some cb\<rparr>"
| "chain_set (ContinueWith fn) h = h\<lparr>success_h := Some (Chained (success_h h) fn)\<rparr>"

text \<open>
  The methods of the chain object. In the first file they assign to the object that
  \<^verbatim>\<open>currentHandlers\<close> names when they are called, whichever \<^verbatim>\<open>run\<close> returned the
  chain; in the second file they assign to the object local to their \<^verbatim>\<open>run\<close>.
\<close>

definition chain0 :: "nat \<Rightarrow> chain_call \<Rightarrow> state \<Rightarrow> state" where
  "chain0 r call s =
     s\<lparr>heap := (heap s)(currentHandlers s := chain_set call (heap s (currentHandlers s)))\<rparr>"

definition chain1 :: "nat \<Rightarrow> chain_call \<Rightarrow> state \<Rightarrow> state" where
  "chain1 r call s = s\<lparr>heap := (heap s)(r := chain_set call (heap s r))\<rparr>"

definition chain :: "controller \<Rightarrow> nat \<Rightarrow> chain_call \<Rightarrow> state \<Rightarrow> state" where
  "chain c r call s = (case source c of Part000 \<Rightarrow> chain0 r call s | Part001 \<Rightarrow> chain1 r call s)"

subsection \<open>Producers\<close>

text \<open>
  An outcome that a producer emits after its \<^verbatim>\<open>subscribe\<close> call has returned. It
  reaches the callbacks while the producer subscription is live; the callback completes
  the subscriber, the teardown runs, and whatever the producer emits afterwards is not
  delivered, nor is an outcome for a subscription that was unsubscribed.
\<close>

definition deliver :: "controller \<Rightarrow> nat \<Rightarrow> outcome \<Rightarrow> state \<Rightarrow> state" where
  "deliver c n out s =
     (case subs s n of
        None \<Rightarrow> s
      | Some iv \<Rightarrow>
          (case out of
             Value d \<Rightarrow> next_cb c n iv d s
           | Failure e \<Rightarrow> error_cb c n iv e s))"

text \<open>
  Modelled from the spec: the operator \<^verbatim>\<open>forkJoin\<close> of the stream library is not in the
  sources; the repository only contains the call \<^verbatim>\<open>forkJoin(observablesFn(request))\<close>.
  By the specification the sub-producers run concurrently and their results are
  aggregated into a single named-result object only if all succeed. \<open>forkJoin_result\<close>
  is that object: the values under the producers' names, in the order of the names.
\<close>

definition forkJoin_result :: "string list \<Rightarrow> (string \<times> jsval) list \<Rightarrow> jsval" where
  "forkJoin_result keys vals =
     JObj (map (\<lambda>k. (k, case map_of vals k of Some v \<Rightarrow> v | None \<Rightarrow> JUndefined)) keys)"

text \<open>
  Modelled from the spec: the operator \<^verbatim>\<open>forkJoin\<close> of the stream library is not in the
  sources. By the specification, if any sub-producer fails, the whole invocation fails
  with that sub-producer's error and no partial result is delivered; so the operator
  keeps the values it has received, emits the aggregated object once every named
  sub-producer has delivered its value, and passes on the first failure. The sub-producers
  emit after \<^verbatim>\<open>subscribe\<close> has returned, one outcome each, as the specification
  requires of a producer. What the subscriber of \<^verbatim>\<open>executeObservable\<close> does with the
  aggregated object or the failure is \<open>next_cb\<close> and \<open>error_cb\<close>, from the sources.
\<close>

definition forkJoin_deliver :: "controller \<Rightarrow> nat \<Rightarrow> string \<Rightarrow> outcome \<Rightarrow> state \<Rightarrow> state" where
  "forkJoin_deliver c n k out s =
     (case subs s n of
        None \<Rightarrow> s
      | Some iv \<Rightarrow>
          if k \<in> set (inv_keys iv) \<and> map_of (inv_values iv) k = None then
            (case out of
               Failure e \<Rightarrow> error_cb c n iv e s
             | Value v \<Rightarrow>
                 (let vals = inv_values iv @ [(k, v)] in
                  if list_all (\<lambda>k'. map_of vals k' \<noteq> None) (inv_keys iv)
                  then next_cb c n iv (forkJoin_result (inv_keys iv) vals) s
                  else s\<lparr>subs := (subs s)(n := Some (iv\<lparr>inv_values := vals\<rparr>))\<rparr>))
          else s)"

subsection \<open>The event loop\<close>

text \<open>
  One task of the caller is a list of synchronous calls: \<open>Run args calls\<close> is
  \<^verbatim>\<open>run(...args)\<close> followed by the chained registrations \<open>calls\<close> on the object it
  returns; \<open>Chain r calls\<close> registers on a chain object kept from an earlier call.
  The other stimuli are the outcomes that producers emit after \<^verbatim>\<open>subscribe\<close> has
  returned: \<open>Settle\<close> for the producer of a single-result controller, \<open>SettleNamed\<close>
  for a named sub-producer under \<^verbatim>\<open>forkJoin\<close>.
\<close>

datatype action = Run "jsval list" "chain_call list" | Chain nat "chain_call list"

datatype stimulus =
    Task "action list"
  | Settle nat outcome
  | SettleNamed nat string outcome

fun user_action :: "controller \<Rightarrow> action \<Rightarrow> state \<Rightarrow> state" where
  "user_action c (Run args calls) s = (let (s1, r) = run c args s in fold (chain c r) calls s1)"
| "user_action c (Chain r calls) s = fold (chain c r) calls s"

fun perform :: "controller \<Rightarrow> stimulus \<Rightarrow> state \<Rightarrow> state" where
  "perform c (Task acts) s = fold (user_action c) acts s"
| "perform c (Settle n out) s =
     (case getObservable c of
        Single \<Rightarrow> deliver c n out s
      | Synchronous g \<Rightarrow> deliver c n out s
      | ForkJoin f \<Rightarrow> s)"
| "perform c (SettleNamed n k out) s =
     (case getObservable c of
        Single \<Rightarrow> s
      | Synchronous g \<Rightarrow> s
      | ForkJoin f \<Rightarrow> forkJoin_deliver c n k out s)"

text \<open>
  The callback that \<^verbatim>\<open>executeObservable\<close> gives to \<^verbatim>\<open>queueMicrotask\<close>, and the
  microtask checkpoint at the end of every task.
\<close>

definition loading_microtask :: "controller \<Rightarrow> nat \<times> jsval list \<times> nat \<Rightarrow> state \<Rightarrow> state" where
  "loading_microtask c m s =
     (case m of (n, args, handlers) \<Rightarrow>
        emit n (optional_call (\<lambda>cb. OptionsOnLoading cb args) (onLoading (options c))
                @ optional_call (\<lambda>cb. HandlerLoading cb args) (loading_h (heap s handlers))) s)"

definition drain :: "controller \<Rightarrow> state \<Rightarrow> state" where
  "drain c s = (fold (loading_microtask c) (microtasks s) s)\<lparr>microtasks := []\<rparr>"

text \<open>
  Timers. The \<^verbatim>\<open>setTimeout(..., 0)\<close> callbacks wait in the order they were set; the
  debounce operator has at most one timer. A timer is due for a stimulus at time \<open>t\<close> when
  its time is before \<open>t\<close>: what happens at the time a timer was set for comes before the
  timer. Of two due timers the earlier fires first, the debounce timer on a tie.
\<close>

datatype timer = TimeoutTimer | DebounceTimer

definition due_timeout :: "nat \<Rightarrow> state \<Rightarrow> nat option" where
  "due_timeout t s =
     (case timeouts s of [] \<Rightarrow> None | (d, args) # rest \<Rightarrow> if d < t then Some d else None)"

definition due_debounce :: "nat \<Rightarrow> state \<Rightarrow> nat option" where
  "due_debounce t s =
     (case debounceTime_pending s of
        None \<Rightarrow> None
      | Some (d, args) \<Rightarrow> if d < t then Some d else None)"

definition next_timer :: "nat \<Rightarrow> state \<Rightarrow> timer option" where
  "next_timer t s =
     (case due_timeout t s of
        None \<Rightarrow> (case due_debounce t s of None \<Rightarrow> None | Some d' \<Rightarrow> Some DebounceTimer)
      | Some d \<Rightarrow>
          (case due_debounce t s of
             None \<Rightarrow> Some TimeoutTimer
           | Some d' \<Rightarrow> if d < d' then Some TimeoutTimer else Some DebounceTimer))"

definition fire_timeout :: "controller \<Rightarrow> state \<Rightarrow> state" where
  "fire_timeout c s =
     (case timeouts s of
        [] \<Rightarrow> s
      | (d, args) # rest \<Rightarrow>
          drain c (timeout_cb c args (s\<lparr>timeouts := rest, now := max (now s) d\<rparr>)))"

definition fire_debounce :: "controller \<Rightarrow> state \<Rightarrow> state" where
  "fire_debounce c s =
     (case debounceTime_pending s of
        None \<Rightarrow> s
      | Some (d, args) \<Rightarrow>
          drain c (switchMap_next c args (s\<lparr>debounceTime_pending := None, now := max (now s) d\<rparr>)))"

definition timer_measure :: "state \<Rightarrow> nat" where
  "timer_measure s =
     2 * length (timeouts s) + (case debounceTime_pending s of None \<Rightarrow> 0 | Some p \<Rightarrow> 1)"

text \<open>
  Firing a timer ends in a microtask checkpoint and never sets a \<^verbatim>\<open>setTimeout\<close>, so
  the loop that fires the due timers comes to an end.
\<close>

lemma emit_frame [simp]:
  "now (emit n es s) = now s"
  "status (emit n es s) = status s"
  "error (emit n es s) = error s"
  "tracker (emit n es s) = tracker s"
  "currentSub (emit n es s) = currentSub s"
  "switchMap_inner (emit n es s) = switchMap_inner s"
  "debounceTime_pending (emit n es s) = debounceTime_pending s"
  "currentHandlers (emit n es s) = currentHandlers s"
  "heap (emit n es s) = heap s"
  "next_ref (emit n es s) = next_ref s"
  "uuids (emit n es s) = uuids s"
  "subs (emit n es s) = subs s"
  "timeouts (emit n es s) = timeouts s"
  "microtasks (emit n es s) = microtasks s"
  "trace (emit n es s) = trace s @ map (\<lambda>e. (now s, n, e)) es"
  by (simp_all add: emit_def)

lemma executeObservable_timers [simp]:
  "timeouts (fst (executeObservable c args s)) = timeouts s"
  "debounceTime_pending (fst (executeObservable c args s)) = debounceTime_pending s"
  by (simp_all add: executeObservable_def executeObservable0_def executeObservable1_def
      status_set_def error_set_def Let_def split: source_file.split)

lemma next_cb_timers [simp]:
  "timeouts (next_cb c n iv d s) = timeouts s"
  "debounceTime_pending (next_cb c n iv d s) = debounceTime_pending s"
  by (simp_all add: next_cb_def status_set_def complete_def Let_def)

lemma error_cb_timers [simp]:
  "timeouts (error_cb c n iv e s) = timeouts s"
  "debounceTime_pending (error_cb c n iv e s) = debounceTime_pending s"
  by (simp_all add: error_cb_def error_cb0_def error_cb1_def status_set_def error_set_def
      complete_def Let_def split: source_file.split)

lemma emitted_timers [simp]:
  "timeouts (emitted c iv outs s) = timeouts s"
  "debounceTime_pending (emitted c iv outs s) = debounceTime_pending s"
  by (induction c iv outs s rule: emitted.induct) simp_all

lemma subscribe_timers [simp]:
  "timeouts (subscribe c iv s) = timeouts s"
  "debounceTime_pending (subscribe c iv s) = debounceTime_pending s"
  by (simp_all add: subscribe_def Let_def)

lemma execute_now_timers [simp]:
  "timeouts (execute_now c args s) = timeouts s"
  "debounceTime_pending (execute_now c args s) = debounceTime_pending s"
  by (simp_all add: execute_now_def unsubscribe_def Let_def split_beta
      split: option.split subscription.split)

lemma switchMap_next_timers [simp]:
  "timeouts (switchMap_next c args s) = timeouts s"
  "debounceTime_pending (switchMap_next c args s) = debounceTime_pending s"
  by (simp_all add: switchMap_next_def Let_def split_beta split: option.split)

lemma fold_loading_timers:
  "timeouts (fold (loading_microtask c) ms s) = timeouts s
   \<and> debounceTime_pending (fold (loading_microtask c) ms s) = debounceTime_pending s"
  by (induction ms arbitrary: s) (simp_all add: loading_microtask_def split_beta)

lemma drain_timers [simp]:
  "timeouts (drain c s) = timeouts s"
  "debounceTime_pending (drain c s) = debounceTime_pending s"
  by (simp_all add: drain_def fold_loading_timers)

lemma fire_timeout_measure:
  "next_timer t s = Some TimeoutTimer \<Longrightarrow> timer_measure (fire_timeout c s) < timer_measure s"
  by (auto simp: next_timer_def due_timeout_def fire_timeout_def timer_measure_def timeout_cb_def
      runSubject_next_def split: list.splits option.splits if_splits)

lemma fire_debounce_measure:
  "next_timer t s = Some DebounceTimer \<Longrightarrow> timer_measure (fire_debounce c s) < timer_measure s"
  by (auto simp: next_timer_def due_debounce_def fire_debounce_def timer_measure_def
      split: list.splits option.splits if_splits)

function advance :: "controller \<Rightarrow> nat \<Rightarrow> state \<Rightarrow> state" where
  "advance c t s =
     (case next_timer t s of
        None \<Rightarrow> s
      | Some TimeoutTimer \<Rightarrow> advance c t (fire_timeout c s)
      | Some DebounceTimer \<Rightarrow> advance c t (fire_debounce c s))"
  by pat_completeness auto
termination
  by (relation "measure (\<lambda>(c, t, s). timer_measure s)")
     (simp_all add: fire_timeout_measure fire_debounce_measure)

declare advance.simps [simp del]

text \<open>
  A stimulus at time \<open>t\<close>: the timers due before \<open>t\<close> fire, the clock moves to \<open>t\<close>,
  the stimulus runs as one task and the microtasks it queued run after it. An execution
  is a list of timed stimuli.
\<close>

definition handle :: "controller \<Rightarrow> nat \<times> stimulus \<Rightarrow> state \<Rightarrow> state" where
  "handle c ev s0 =
     (case ev of (t, st) \<Rightarrow>
        (let s1 = advance c t s0;
             s2 = s1\<lparr>now := max (now s1) t\<rparr>;
             s3 = perform c st s2
         in drain c s3))"

definition exec :: "controller \<Rightarrow> (nat \<times> stimulus) list \<Rightarrow> state \<Rightarrow> state" where
  "exec c evs s = fold (handle c) evs s"

section \<open>Properties of the tracker\<close>

text \<open>
  Claim C8. Starting from a fresh tracker, begin x; begin x; success x leaves
  pendingCount at 0 (the second begin adds nothing and one removal is enough);
  begin a; begin b; error a boom, for distinct a and b, leaves pendingCount at 1 and
  lastError at boom; and in any tracker state, success or error for an identifier that is
  not pending leaves the pending set as it was.
\<close>

theorem tracker_idempotent_begin_single_remove:
  "pendingCount (tracker_success x (tracker_begin x (tracker_begin x new_tracker))) = 0
   \<and> (a \<noteq> b \<longrightarrow>
        pendingCount (tracker_error a boom (tracker_begin b (tracker_begin a new_tracker))) = 1
        \<and> lastError (tracker_error a boom (tracker_begin b (tracker_begin a new_tracker)))
            = Some boom)
   \<and> (i \<notin> pending_sig t \<longrightarrow>
        pending_sig (tracker_success i t) = pending_sig t
        \<and> pending_sig (tracker_error i m t) = pending_sig t)"
  by (auto simp: pendingCount_def lastError_def tracker_success_def tracker_begin_def
      tracker_error_def new_tracker_def)

theorem tracker_idempotent_begin_single_remove_witness:
  "pendingCount (tracker_success ''x'' (tracker_begin ''x'' (tracker_begin ''x''
      (new_tracker :: string GlobalHttpTracker)))) = 0
   \<and> ''a'' \<noteq> ''b''
   \<and> pendingCount (tracker_error ''a'' ''boom'' (tracker_begin ''b'' (tracker_begin ''a''
      new_tracker))) = 1
   \<and> lastError (tracker_error ''a'' ''boom'' (tracker_begin ''b'' (tracker_begin ''a''
      new_tracker))) = Some ''boom''
   \<and> ''z'' \<notin> pending_sig (tracker_begin ''a'' (new_tracker :: string GlobalHttpTracker))
   \<and> pending_sig (tracker_success ''z'' (tracker_begin ''a''
        (new_tracker :: string GlobalHttpTracker))) = {''a''}
   \<and> pending_sig (tracker_error ''z'' ''boom'' (tracker_begin ''a'' new_tracker)) = {''a''}"
  using tracker_idempotent_begin_single_remove
    [of "''x''" "''a''" "''b''" "''boom''" "''z''"
        "tracker_begin ''a'' (new_tracker :: string GlobalHttpTracker)" "''boom''"]
  by (simp add: tracker_begin_def new_tracker_def)

section \<open>Evaluating executions\<close>

text \<open>
  The registrations chained on one \<^verbatim>\<open>run\<close> all assign to the same handler object, so
  a list of them is one update of the heap.
\<close>

lemma fold_chain1:
  "fold (chain1 r) calls s = s\<lparr>heap := (heap s)(r := fold chain_set calls (heap s r))\<rparr>"
  by (induction calls arbitrary: s) (simp_all add: chain1_def)

lemma fold_chain0:
  "fold (chain0 r) calls s =
     s\<lparr>heap := (heap s)(currentHandlers s := fold chain_set calls (heap s (currentHandlers s)))\<rparr>"
  by (induction calls arbitrary: s) (simp_all add: chain0_def)

lemma fold_chain:
  "fold (chain c r) calls s =
     (case source c of
        Part000 \<Rightarrow> s\<lparr>heap := (heap s)(currentHandlers s :=
                      fold chain_set calls (heap s (currentHandlers s)))\<rparr>
      | Part001 \<Rightarrow> s\<lparr>heap := (heap s)(r := fold chain_set calls (heap s r))\<rparr>)"
proof -
  have "chain c r = (case source c of Part000 \<Rightarrow> chain0 r | Part001 \<Rightarrow> chain1 r)"
    by (auto simp: chain_def fun_eq_iff split: source_file.split)
  then show ?thesis
    by (simp add: fold_chain0 fold_chain1 split: source_file.split)
qed

lemma optional_call_simps [simp]:
  "optional_call f None = []"
  "optional_call f (Some cb) = [f cb]"
  by (simp_all add: optional_call_def)

lemma optional_success_simps [simp]:
  "optional_success None d as = []"
  "optional_success (Some h) d as = call_success h d as"
  by (simp_all add: optional_success_def)

text \<open>
  The definitions that evaluate an execution. They are unfolded with weak congruence
  rules for \<open>let\<close> and pairs, so that each state is computed before it is used.
\<close>

lemmas run_defs =
  exec_def handle_def drain_def loading_microtask_def run_def run0_def run1_def fold_chain
  chain_def chain0_def chain1_def
  timeout_cb_def execute_now_def unsubscribe_def executeObservable_def executeObservable0_def
  executeObservable1_def subscribe_def status_set_def error_set_def runSubject_next_def
  switchMap_next_def deliver_def next_cb_def error_cb_def error_cb0_def error_cb1_def complete_def
  forkJoin_deliver_def forkJoin_result_def
  next_timer_def due_timeout_def due_debounce_def fire_timeout_def fire_debounce_def
  createBaseAction_def createSignalAction_def createSignalAction_sync_def
  createSignalForkJoinAction_def debounced_def
  tracked_def no_handlers_def emit_def Let_def advance.simps

section \<open>What the subscriber callbacks do\<close>

text \<open>
  The callbacks of the subscriber written as one update of the state each. \<open>reported\<close>
  is the failure value a controller passes on: the value itself in the first file, the
  string of \<^verbatim>\<open>extractErrorMessage\<close> in the second. The three lists are the effects of the
  loading notification, of the \<^verbatim>\<open>next\<close> callback and of the \<^verbatim>\<open>error\<close> callback, for the
  handler object \<open>h\<close> that the invocation reads.
\<close>

definition reported :: "controller \<Rightarrow> jsval \<Rightarrow> jsval" where
  "reported c err = (case source c of Part000 \<Rightarrow> err | Part001 \<Rightarrow> JStr (extractErrorMessage err))"

definition loading_effects :: "controller \<Rightarrow> handlers \<Rightarrow> jsval list \<Rightarrow> effect list" where
  "loading_effects c h as =
     optional_call (\<lambda>cb. OptionsOnLoading cb as) (onLoading (options c))
     @ optional_call (\<lambda>cb. HandlerLoading cb as) (loading_h h)"

definition success_effects :: "controller \<Rightarrow> handlers \<Rightarrow> jsval \<Rightarrow> jsval list \<Rightarrow> effect list" where
  "success_effects c h d as =
     StatusSet Success
     # optional_call (\<lambda>cb. OptionsOnSuccess cb d as) (onSuccess (options c))
     @ optional_success (success_h h) d as
     @ optional_call HandlerFinally (finally_h h)"

definition failure_effects :: "controller \<Rightarrow> handlers \<Rightarrow> jsval \<Rightarrow> jsval list \<Rightarrow> effect list" where
  "failure_effects c h err as =
     (case source c of Part000 \<Rightarrow> [] | Part001 \<Rightarrow> [ConsoleError (extractErrorMessage err)])
     @ [ErrorSet (Some (reported c err)), StatusSet Error]
     @ optional_call (\<lambda>cb. OptionsOnError cb (reported c err) as) (onError (options c))
     @ optional_call (\<lambda>cb. HandlerError cb (reported c err) as) (error_h h)
     @ optional_call HandlerFinally (finally_h h)"

lemma next_cb_state:
  "next_cb c n iv d s =
     s\<lparr>status := Success,
       tracker := (if track (options c) \<noteq> Some False
                   then tracker_success (inv_id iv) (tracker s) else tracker s),
       subs := (subs s)(n := None),
       switchMap_inner := (if switchMap_inner s = Some n then None else switchMap_inner s),
       trace := trace s @ map (\<lambda>e. (now s, n, e))
                  (success_effects c (heap s (inv_handlers iv)) d (inv_args iv))\<rparr>"
  by (simp add: next_cb_def status_set_def emit_def complete_def success_effects_def Let_def)

lemma error_cb_state:
  "error_cb c n iv err s =
     s\<lparr>status := Error, error := Some (reported c err),
       tracker := (if track (options c) \<noteq> Some False
                   then tracker_error (inv_id iv) (reported c err) (tracker s) else tracker s),
       subs := (subs s)(n := None),
       switchMap_inner := (if switchMap_inner s = Some n then None else switchMap_inner s),
       trace := trace s @ map (\<lambda>e. (now s, n, e))
                  (failure_effects c (heap s (inv_handlers iv)) err (inv_args iv))\<rparr>"
  by (cases "source c")
     (simp_all add: error_cb_def error_cb0_def error_cb1_def status_set_def error_set_def emit_def
      complete_def failure_effects_def reported_def Let_def)

lemma executeObservable_state:
  "executeObservable c args s =
     (let h = (case source c of Part000 \<Rightarrow> currentHandlers s | Part001 \<Rightarrow> next_ref s) in
      (s\<lparr>status := Loading, error := None, uuids := Suc (uuids s),
         heap := (case source c of Part000 \<Rightarrow> heap s
                  | Part001 \<Rightarrow> (heap s)(next_ref s := no_handlers)),
         next_ref := (case source c of Part000 \<Rightarrow> next_ref s | Part001 \<Rightarrow> Suc (next_ref s)),
         tracker := (if track (options c) \<noteq> Some False
                     then tracker_begin (randomUUID (uuids s)) (tracker s) else tracker s),
         microtasks := microtasks s @ [(uuids s, args, h)],
         trace := trace s @ [(now s, uuids s, StatusSet Loading), (now s, uuids s, ErrorSet None)]\<rparr>,
       \<lparr>inv_no = uuids s, inv_args = args, inv_handlers = h, inv_id = randomUUID (uuids s),
        inv_keys = [], inv_values = []\<rparr>))"
  by (cases "source c")
     (simp_all add: executeObservable_def executeObservable0_def executeObservable1_def
      status_set_def error_set_def emit_def Let_def)

lemma loading_microtask_state:
  "loading_microtask c m s =
     s\<lparr>trace := trace s @ map (\<lambda>e. (now s, fst m, e))
                 (loading_effects c (heap s (snd (snd m))) (fst (snd m)))\<rparr>"
  by (cases m) (simp add: loading_microtask_def loading_effects_def emit_def)

lemma fold_loading_state:
  "fold (loading_microtask c) ms s =
     s\<lparr>trace := trace s @ concat (map (\<lambda>m. map (\<lambda>e. (now s, fst m, e))
                 (loading_effects c (heap s (snd (snd m))) (fst (snd m)))) ms)\<rparr>"
  by (induction ms arbitrary: s) (simp_all add: loading_microtask_state)

lemma drain_state:
  "drain c s =
     s\<lparr>microtasks := [],
       trace := trace s @ concat (map (\<lambda>m. map (\<lambda>e. (now s, fst m, e))
                 (loading_effects c (heap s (snd (snd m))) (fst (snd m)))) (microtasks s))\<rparr>"
  by (simp add: drain_def fold_loading_state)

text \<open>
  \<open>sync_outcomes\<close> is what the producer of a controller emits inside its
  \<^verbatim>\<open>subscribe\<close> call, \<open>emitted_effects\<close> the effects of handling it, for the handler
  object \<open>h\<close> that the invocation reads. \<open>single_outcome\<close> holds of a controller whose
  producer never emits more than one outcome inside \<^verbatim>\<open>subscribe\<close>.
\<close>

definition sync_outcomes :: "controller \<Rightarrow> jsval list \<Rightarrow> outcome list" where
  "sync_outcomes c args =
     (case getObservable c of Single \<Rightarrow> [] | Synchronous g \<Rightarrow> g args | ForkJoin f \<Rightarrow> [])"

definition single_outcome :: "controller \<Rightarrow> bool" where
  "single_outcome c \<longleftrightarrow> (\<forall>args. length (sync_outcomes c args) \<le> 1)"

fun emitted_effects :: "controller \<Rightarrow> handlers \<Rightarrow> jsval list \<Rightarrow> outcome list \<Rightarrow> effect list" where
  "emitted_effects c h as [] = []"
| "emitted_effects c h as (Value d # outs) = success_effects c h d as @ emitted_effects c h as outs"
| "emitted_effects c h as (Failure e # outs) = failure_effects c h e as"

lemma emitted_frame:
  "now (emitted c iv outs s) = now s"
  "heap (emitted c iv outs s) = heap s"
  "uuids (emitted c iv outs s) = uuids s"
  "currentSub (emitted c iv outs s) = currentSub s"
  "currentHandlers (emitted c iv outs s) = currentHandlers s"
  "next_ref (emitted c iv outs s) = next_ref s"
  "microtasks (emitted c iv outs s) = microtasks s"
  by (induction c iv outs s rule: emitted.induct) (simp_all add: next_cb_state error_cb_state)

lemma emitted_trace:
  "trace (emitted c iv outs s) =
     trace s @ map (\<lambda>e. (now s, inv_no iv, e))
       (emitted_effects c (heap s (inv_handlers iv)) (inv_args iv) outs)"
  by (induction c iv outs s rule: emitted.induct) (simp_all add: next_cb_state error_cb_state)

lemma emitted_subs:
  "subs (emitted c iv outs s) = (if outs = [] then subs s else (subs s)(inv_no iv := None))"
  by (induction c iv outs s rule: emitted.induct)
     (simp_all add: next_cb_state error_cb_state fun_eq_iff)

lemma emitted_switchMap_inner:
  "switchMap_inner (emitted c iv outs s) =
     (if outs \<noteq> [] \<and> switchMap_inner s = Some (inv_no iv) then None else switchMap_inner s)"
  by (induction c iv outs s rule: emitted.induct) (simp_all add: next_cb_state error_cb_state)

lemmas emitted_fields = emitted_frame emitted_trace emitted_subs emitted_switchMap_inner

lemma subscribe_fields:
  "trace (subscribe c iv s) =
     trace s @ map (\<lambda>e. (now s, inv_no iv, e))
       (Subscribe (inv_args iv)
        # emitted_effects c (heap s (inv_handlers iv)) (inv_args iv) (sync_outcomes c (inv_args iv)))"
  "now (subscribe c iv s) = now s"
  "heap (subscribe c iv s) = heap s"
  "uuids (subscribe c iv s) = uuids s"
  "currentSub (subscribe c iv s) = currentSub s"
  "microtasks (subscribe c iv s) = microtasks s"
  "switchMap_inner (subscribe c iv s) =
     (if sync_outcomes c (inv_args iv) \<noteq> [] \<and> switchMap_inner s = Some (inv_no iv)
      then None else switchMap_inner s)"
  by (simp_all add: subscribe_def sync_outcomes_def emitted_fields Let_def)

lemma subscribe_subs:
  "subs (subscribe c iv s) =
     (subs s)(inv_no iv :=
        (if sync_outcomes c (inv_args iv) = []
         then Some (iv\<lparr>inv_keys := (case getObservable c of
                                        Single \<Rightarrow> [] | Synchronous g \<Rightarrow> [] | ForkJoin f \<Rightarrow> f (inv_args iv)),
                       inv_values := []\<rparr>)
         else None))"
  by (simp add: subscribe_def sync_outcomes_def emitted_fields Let_def)

section \<open>The order of effects in an execution\<close>

text \<open>
  \<open>invocation_order\<close> lists, in trace order, the invocation of every effect that is not
  a loading notification: the writes of the two signals, the subscription and the
  success, error and finally callbacks. \<open>status_writes n\<close> lists the values that
  invocation \<open>n\<close> wrote to the status signal.
\<close>

fun is_loading_notice :: "effect \<Rightarrow> bool" where
  "is_loading_notice (OptionsOnLoading cb as) = True"
| "is_loading_notice (HandlerLoading cb as) = True"
| "is_loading_notice e = False"

definition invocation_order :: "(nat \<times> nat \<times> effect) list \<Rightarrow> nat list" where
  "invocation_order tr =
     map (\<lambda>x. fst (snd x)) (filter (\<lambda>x. \<not> is_loading_notice (snd (snd x))) tr)"

lemma invocation_order_append [simp]:
  "invocation_order (xs @ ys) = invocation_order xs @ invocation_order ys"
  by (simp add: invocation_order_def)

lemma invocation_order_Nil [simp]: "invocation_order [] = []"
  by (simp add: invocation_order_def)

lemma invocation_order_loading [simp]:
  "invocation_order (map (\<lambda>e. (t, n, e)) (loading_effects c h as)) = []"
  by (simp add: invocation_order_def loading_effects_def optional_call_def split: option.split)

lemma invocation_order_concat_loading [simp]:
  "invocation_order (concat (map (\<lambda>m. map (\<lambda>e. (t, f m, e)) (loading_effects c (g m) (k m))) ms)) = []"
  by (induction ms) simp_all

lemma invocation_order_emit:
  "set (invocation_order (map (\<lambda>e. (t, n, e)) es)) \<subseteq> {n}"
  by (auto simp: invocation_order_def)

lemma sorted_same: "set xs \<subseteq> {n::nat} \<Longrightarrow> sorted xs"
  by (induction xs) auto

lemma sorted_order_emit:
  "sorted (invocation_order tr) \<Longrightarrow> \<forall>m\<in>set (invocation_order tr). m \<le> n \<Longrightarrow>
   sorted (invocation_order tr @ invocation_order (map (\<lambda>e. (t, n, e)) es))"
  using invocation_order_emit [of t n es] sorted_same [of "invocation_order (map (\<lambda>e. (t, n, e)) es)" n]
  by (auto simp: sorted_append)

fun status_of :: "effect \<Rightarrow> AsyncStatus list" where
  "status_of (StatusSet st) = [st]"
| "status_of e = []"

definition statuses :: "effect list \<Rightarrow> AsyncStatus list" where
  "statuses es = concat (map status_of es)"

definition status_writes :: "nat \<Rightarrow> (nat \<times> nat \<times> effect) list \<Rightarrow> AsyncStatus list" where
  "status_writes n tr = statuses (map (\<lambda>x. snd (snd x)) (filter (\<lambda>x. fst (snd x) = n) tr))"

lemma statuses_simps [simp]:
  "statuses [] = []"
  "statuses (e # es) = status_of e @ statuses es"
  "statuses (es @ es') = statuses es @ statuses es'"
  by (simp_all add: statuses_def)

lemma status_writes_simps [simp]:
  "status_writes n [] = []"
  "status_writes n (xs @ ys) = status_writes n xs @ status_writes n ys"
  by (simp_all add: status_writes_def)

lemma status_writes_emit:
  "status_writes n (map (\<lambda>e. (t, m, e)) es) = (if m = n then statuses es else [])"
  by (simp add: status_writes_def filter_map comp_def)

lemma statuses_optional_call [simp]:
  "statuses (optional_call (\<lambda>cb. OptionsOnLoading cb as) x) = []"
  "statuses (optional_call (\<lambda>cb. HandlerLoading cb as) x) = []"
  "statuses (optional_call (\<lambda>cb. OptionsOnSuccess cb d as) x) = []"
  "statuses (optional_call (\<lambda>cb. OptionsOnError cb d as) x) = []"
  "statuses (optional_call (\<lambda>cb. HandlerError cb d as) x) = []"
  "statuses (optional_call HandlerFinally x) = []"
  by (cases x; simp)+

lemma statuses_call_success [simp]: "statuses (call_success h d as) = []"
  by (induction h d as rule: call_success.induct) simp_all

lemma statuses_optional_success [simp]: "statuses (optional_success x d as) = []"
  by (cases x) simp_all

lemma statuses_loading [simp]: "statuses (loading_effects c h as) = []"
  by (simp add: loading_effects_def)

lemma statuses_success [simp]: "statuses (success_effects c h d as) = [Success]"
  by (simp add: success_effects_def)

lemma statuses_failure [simp]: "statuses (failure_effects c h e as) = [Error]"
  by (cases "source c") (simp_all add: failure_effects_def)

lemma status_writes_concat_loading [simp]:
  "status_writes n (concat (map (\<lambda>m. map (\<lambda>e. (t, f m, e)) (loading_effects c (g m) (k m))) ms)) = []"
  by (induction ms) (simp_all add: status_writes_emit)

lemma statuses_emitted_Nil [simp]: "statuses (emitted_effects c h as []) = []"
  by simp

lemma statuses_emitted:
  "length outs \<le> 1 \<Longrightarrow> statuses (emitted_effects c h as outs) \<in> {[], [Success], [Error]}"
proof (cases outs)
  case Nil
  then show ?thesis by simp
next
  case (Cons out rest)
  assume "length outs \<le> 1"
  with Cons have "rest = []"
    by simp
  with Cons show ?thesis
    by (cases out) simp_all
qed

text \<open>
  The invariant of the executions. \<open>pointer\<close> is the subscription that the next dispatch
  will unsubscribe: the inner subscription of \<^verbatim>\<open>switchMap\<close> with debounce, \<^verbatim>\<open>currentSub\<close>
  without. In every reachable state the effects other than loading notifications are in
  the order of the invocations, only the latest invocation can be subscribed and it is
  the one the pointer names, the debounce timer is only set on a debounced controller,
  an invocation that was not dispatched has written nothing to the status signal and a
  subscribed one has written loading; and if the producer never emits more than one
  outcome inside \<^verbatim>\<open>subscribe\<close>, every dispatched invocation has written loading, or
  loading followed by one of success and error.
\<close>

definition pointer :: "controller \<Rightarrow> state \<Rightarrow> nat option" where
  "pointer c s =
     (if debounced (options c) then switchMap_inner s
      else (case currentSub s of Some (Execution n) \<Rightarrow> Some n | Some Pipeline \<Rightarrow> None | None \<Rightarrow> None))"

definition ok :: "controller \<Rightarrow> state \<Rightarrow> bool" where
  "ok c s \<longleftrightarrow>
     sorted (invocation_order (trace s))
     \<and> (\<forall>m\<in>set (invocation_order (trace s)). m < uuids s)
     \<and> (\<forall>n iv. subs s n = Some iv \<longrightarrow> Suc n = uuids s)
     \<and> (\<forall>n iv. subs s n = Some iv \<longrightarrow> pointer c s = Some n)
     \<and> (\<not> debounced (options c) \<longrightarrow> debounceTime_pending s = None)
     \<and> (\<forall>n. uuids s \<le> n \<longrightarrow> status_writes n (trace s) = [])
     \<and> (\<forall>n iv. subs s n = Some iv \<longrightarrow> status_writes n (trace s) = [Loading])
     \<and> (single_outcome c \<longrightarrow> (\<forall>n. n < uuids s \<longrightarrow>
           status_writes n (trace s) \<in> {[Loading], [Loading, Success], [Loading, Error]}))"

lemma okI:
  assumes "sorted (invocation_order (trace s))"
    and "\<And>m. m \<in> set (invocation_order (trace s)) \<Longrightarrow> m < uuids s"
    and "\<And>n iv. subs s n = Some iv \<Longrightarrow> Suc n = uuids s"
    and "\<And>n iv. subs s n = Some iv \<Longrightarrow> pointer c s = Some n"
    and "\<not> debounced (options c) \<Longrightarrow> debounceTime_pending s = None"
    and "\<And>n. uuids s \<le> n \<Longrightarrow> status_writes n (trace s) = []"
    and "\<And>n iv. subs s n = Some iv \<Longrightarrow> status_writes n (trace s) = [Loading]"
    and "\<And>n. single_outcome c \<Longrightarrow> n < uuids s \<Longrightarrow>
           status_writes n (trace s) \<in> {[Loading], [Loading, Success], [Loading, Error]}"
  shows "ok c s"
  using assms unfolding ok_def by blast

lemma ok_sorted: "ok c s \<Longrightarrow> sorted (invocation_order (trace s))"
  by (simp add: ok_def)

lemma ok_bound: "ok c s \<Longrightarrow> m \<in> set (invocation_order (trace s)) \<Longrightarrow> m < uuids s"
  by (simp add: ok_def)

lemma ok_live: "ok c s \<Longrightarrow> subs s n = Some iv \<Longrightarrow> Suc n = uuids s"
  unfolding ok_def by blast

lemma ok_pointer: "ok c s \<Longrightarrow> subs s n = Some iv \<Longrightarrow> pointer c s = Some n"
  unfolding ok_def by blast

lemma ok_pending: "ok c s \<Longrightarrow> \<not> debounced (options c) \<Longrightarrow> debounceTime_pending s = None"
  by (simp add: ok_def)

lemma ok_unused: "ok c s \<Longrightarrow> uuids s \<le> n \<Longrightarrow> status_writes n (trace s) = []"
  by (simp add: ok_def)

lemma ok_loading: "ok c s \<Longrightarrow> subs s n = Some iv \<Longrightarrow> status_writes n (trace s) = [Loading]"
  unfolding ok_def by blast

lemma ok_used:
  "ok c s \<Longrightarrow> single_outcome c \<Longrightarrow> n < uuids s \<Longrightarrow>
   status_writes n (trace s) \<in> {[Loading], [Loading, Success], [Loading, Error]}"
  unfolding ok_def by blast

lemma ok_init: "ok c (createBaseAction c tr)"
  by (rule okI) (simp_all add: createBaseAction_def)

lemma ok_frame:
  assumes "ok c s" "trace s' = trace s" "uuids s' = uuids s" "subs s' = subs s"
    "switchMap_inner s' = switchMap_inner s" "currentSub s' = currentSub s"
    "debounceTime_pending s' = debounceTime_pending s"
  shows "ok c s'"
proof -
  have p: "pointer c s' = pointer c s"
    using assms by (simp add: pointer_def)
  show ?thesis
    using assms(1) unfolding ok_def p assms(2-7) .
qed

lemma ok_drain: "ok c s \<Longrightarrow> ok c (drain c s)"
proof (rule okI)
  assume a: "ok c s"
  show "sorted (invocation_order (trace (drain c s)))"
    using ok_sorted [OF a] by (simp add: drain_state)
  show "m < uuids (drain c s)" if "m \<in> set (invocation_order (trace (drain c s)))" for m
    using that ok_bound [OF a, of m] by (simp add: drain_state)
  show "Suc n = uuids (drain c s)" if "subs (drain c s) n = Some iv" for n iv
    using that ok_live [OF a, of n iv] by (simp add: drain_state)
  show "pointer c (drain c s) = Some n" if "subs (drain c s) n = Some iv" for n iv
  proof -
    have "pointer c (drain c s) = pointer c s"
      by (simp add: drain_state pointer_def)
    with that ok_pointer [OF a, of n iv] show ?thesis
      by (simp add: drain_state)
  qed
  show "debounceTime_pending (drain c s) = None" if "\<not> debounced (options c)"
    using that ok_pending [OF a] by (simp add: drain_state)
  show "status_writes n (trace (drain c s)) = []" if "uuids (drain c s) \<le> n" for n
    using that ok_unused [OF a, of n] by (simp add: drain_state)
  show "status_writes n (trace (drain c s)) = [Loading]" if "subs (drain c s) n = Some iv" for n iv
    using that ok_loading [OF a, of n iv] by (simp add: drain_state)
  show "status_writes n (trace (drain c s)) \<in> {[Loading], [Loading, Success], [Loading, Error]}"
    if "single_outcome c" "n < uuids (drain c s)" for n
    using that ok_used [OF a, of n] by (simp add: drain_state)
qed

text \<open>
  A subscriber callback of the live invocation appends effects of that invocation and
  closes the subscription.
\<close>

lemma ok_settle:
  assumes a: "ok c s" and live: "subs s n = Some iv"
    and tr: "trace s' = trace s @ map (\<lambda>e. (now s, n, e)) es"
    and u: "uuids s' = uuids s"
    and sb: "subs s' = (subs s)(n := None)"
    and dp: "debounceTime_pending s' = debounceTime_pending s"
    and st: "statuses es = [Success] \<or> statuses es = [Error]"
  shows "ok c s'"
proof (rule okI)
  have n: "Suc n = uuids s"
    by (rule ok_live [OF a live])
  have le: "\<forall>m\<in>set (invocation_order (trace s)). m \<le> n"
    using ok_bound [OF a] n by fastforce
  show "sorted (invocation_order (trace s'))"
    using sorted_order_emit [OF ok_sorted [OF a] le] by (simp add: tr)
  show "m < uuids s'" if "m \<in> set (invocation_order (trace s'))" for m
    using that ok_bound [OF a, of m] invocation_order_emit [of "now s" n es] n
    by (auto simp: tr u)
  show "Suc k = uuids s'" if "subs s' k = Some iv'" for k iv'
    using that ok_live [OF a, of k iv'] by (simp add: sb u split: if_splits)
  show "pointer c s' = Some k" if "subs s' k = Some iv'" for k iv'
  proof -
    from that have "k \<noteq> n" and "subs s k = Some iv'"
      by (auto simp: sb split: if_splits)
    with ok_live [OF a this(2)] n show ?thesis
      by simp
  qed
  show "debounceTime_pending s' = None" if "\<not> debounced (options c)"
    using that ok_pending [OF a] by (simp add: dp)
  show "status_writes k (trace s') = []" if "uuids s' \<le> k" for k
    using that ok_unused [OF a, of k] n by (simp add: tr u status_writes_emit)
  show "status_writes k (trace s') = [Loading]" if "subs s' k = Some iv'" for k iv'
    using that ok_loading [OF a, of k iv'] by (simp add: tr sb status_writes_emit split: if_splits)
  show "status_writes k (trace s') \<in> {[Loading], [Loading, Success], [Loading, Error]}"
    if "single_outcome c" "k < uuids s'" for k
    using that ok_used [OF a, of k] ok_loading [OF a live] st
    by (auto simp: tr u status_writes_emit)
qed

lemma ok_next_cb:
  assumes "ok c s" "subs s n = Some iv"
  shows "ok c (next_cb c n iv d s)"
  by (rule ok_settle [OF assms,
        where es = "success_effects c (heap s (inv_handlers iv)) d (inv_args iv)"])
     (simp_all add: next_cb_state)

lemma ok_error_cb:
  assumes "ok c s" "subs s n = Some iv"
  shows "ok c (error_cb c n iv e s)"
  by (rule ok_settle [OF assms,
        where es = "failure_effects c (heap s (inv_handlers iv)) e (inv_args iv)"])
     (simp_all add: error_cb_state)

lemma ok_deliver: "ok c s \<Longrightarrow> ok c (deliver c n out s)"
  by (simp add: deliver_def ok_next_cb ok_error_cb split: option.split outcome.split)

lemma ok_values:
  assumes a: "ok c s" and live: "subs s n = Some iv"
  shows "ok c (s\<lparr>subs := (subs s)(n := Some iv')\<rparr>)"
proof (rule okI)
  let ?s = "s\<lparr>subs := (subs s)(n := Some iv')\<rparr>"
  show "sorted (invocation_order (trace ?s))"
    using ok_sorted [OF a] by simp
  show "m < uuids ?s" if "m \<in> set (invocation_order (trace ?s))" for m
    using that ok_bound [OF a, of m] by simp
  show "Suc k = uuids ?s" if "subs ?s k = Some x" for k x
    using that ok_live [OF a, of k x] ok_live [OF a live] by (simp split: if_splits)
  show "pointer c ?s = Some k" if "subs ?s k = Some x" for k x
  proof -
    have "pointer c ?s = pointer c s"
      by (simp add: pointer_def)
    with that ok_pointer [OF a, of k x] ok_pointer [OF a live] show ?thesis
      by (simp split: if_splits)
  qed
  show "debounceTime_pending ?s = None" if "\<not> debounced (options c)"
    using that ok_pending [OF a] by simp
  show "status_writes k (trace ?s) = []" if "uuids ?s \<le> k" for k
    using that ok_unused [OF a, of k] by simp
  show "status_writes k (trace ?s) = [Loading]" if "subs ?s k = Some x" for k x
    using that ok_loading [OF a, of k x] ok_loading [OF a live] by (simp split: if_splits)
  show "status_writes k (trace ?s) \<in> {[Loading], [Loading, Success], [Loading, Error]}"
    if "single_outcome c" "k < uuids ?s" for k
    using that ok_used [OF a, of k] by simp
qed

lemma ok_forkJoin_deliver: "ok c s \<Longrightarrow> ok c (forkJoin_deliver c n k out s)"
  by (simp add: forkJoin_deliver_def ok_next_cb ok_error_cb ok_values Let_def
      split: option.split outcome.split)

lemma unsubscribe_fields [simp]:
  "trace (unsubscribe sub s) = trace s"
  "uuids (unsubscribe sub s) = uuids s"
  "now (unsubscribe sub s) = now s"
  "heap (unsubscribe sub s) = heap s"
  "currentHandlers (unsubscribe sub s) = currentHandlers s"
  "switchMap_inner (unsubscribe sub s) = switchMap_inner s"
  "currentSub (unsubscribe sub s) = currentSub s"
  "debounceTime_pending (unsubscribe sub s) = debounceTime_pending s"
  "subs (unsubscribe sub s) =
     (case sub of Some (Execution n) \<Rightarrow> (subs s)(n := None) | Some Pipeline \<Rightarrow> subs s | None \<Rightarrow> subs s)"
  by (simp_all add: unsubscribe_def split: option.split subscription.split)

text \<open>
  The effects of a dispatch: the two signal writes, the subscription, and the effects
  of what the producer emits inside \<^verbatim>\<open>subscribe\<close>. \<open>dispatch_handlers\<close> is the handler
  object that the new invocation reads: the one that \<^verbatim>\<open>currentHandlers\<close> names in the
  first file, a new and empty one in the second. \<open>new_invocation\<close> is the closure that is
  subscribed.
\<close>

definition dispatch_handlers :: "controller \<Rightarrow> state \<Rightarrow> handlers" where
  "dispatch_handlers c s =
     (case source c of Part000 \<Rightarrow> heap s (currentHandlers s) | Part001 \<Rightarrow> no_handlers)"

definition dispatch_effects :: "controller \<Rightarrow> jsval list \<Rightarrow> state \<Rightarrow> effect list" where
  "dispatch_effects c args s =
     [StatusSet Loading, ErrorSet None, Subscribe args]
     @ emitted_effects c (dispatch_handlers c s) args (sync_outcomes c args)"

definition new_invocation :: "controller \<Rightarrow> jsval list \<Rightarrow> state \<Rightarrow> invocation" where
  "new_invocation c args s =
     \<lparr>inv_no = uuids s, inv_args = args,
      inv_handlers = (case source c of Part000 \<Rightarrow> currentHandlers s | Part001 \<Rightarrow> next_ref s),
      inv_id = randomUUID (uuids s),
      inv_keys = (case getObservable c of
                    Single \<Rightarrow> [] | Synchronous g \<Rightarrow> [] | ForkJoin f \<Rightarrow> f args),
      inv_values = []\<rparr>"

lemma execute_now_fields:
  "trace (execute_now c args s) =
     trace s @ map (\<lambda>e. (now s, uuids s, e)) (dispatch_effects c args s)"
  by (cases "source c")
     (simp_all add: execute_now_def executeObservable_state subscribe_fields dispatch_effects_def
      dispatch_handlers_def Let_def cong: let_weak_cong prod.case_cong_weak)

lemma execute_now_fields2:
  "uuids (execute_now c args s) = Suc (uuids s)"
  "currentSub (execute_now c args s) = Some (Execution (uuids s))"
  "debounceTime_pending (execute_now c args s) = debounceTime_pending s"
  by (simp_all add: execute_now_def executeObservable_state subscribe_fields Let_def
      cong: let_weak_cong prod.case_cong_weak)

lemma execute_now_subs:
  "subs (execute_now c args s) =
     (subs (unsubscribe (currentSub s) s))(uuids s :=
        (if sync_outcomes c args = [] then Some (new_invocation c args s) else None))"
  by (cases "source c"; cases "getObservable c"; cases "currentSub s")
     (auto simp add: execute_now_def executeObservable_state subscribe_subs Let_def
      new_invocation_def unsubscribe_def sync_outcomes_def
      split: subscription.split cong: let_weak_cong prod.case_cong_weak)

lemma switchMap_next_subs:
  "subs (switchMap_next c args s) =
     (case switchMap_inner s of Some n \<Rightarrow> (subs s)(n := None) | None \<Rightarrow> subs s)
       (uuids s := (if sync_outcomes c args = [] then Some (new_invocation c args s) else None))"
  by (cases "source c"; cases "getObservable c"; cases "switchMap_inner s")
     (auto simp add: switchMap_next_def executeObservable_state subscribe_subs Let_def
      new_invocation_def sync_outcomes_def cong: let_weak_cong prod.case_cong_weak)

lemma switchMap_next_fields:
  "trace (switchMap_next c args s) =
     trace s @ map (\<lambda>e. (now s, uuids s, e)) (dispatch_effects c args s)"
  "uuids (switchMap_next c args s) = Suc (uuids s)"
  "currentSub (switchMap_next c args s) = currentSub s"
  "switchMap_inner (switchMap_next c args s) =
     (if sync_outcomes c args = [] then Some (uuids s) else None)"
  "debounceTime_pending (switchMap_next c args s) = debounceTime_pending s"
  by (cases "source c";
      simp add: switchMap_next_def executeObservable_state subscribe_fields dispatch_effects_def
        dispatch_handlers_def Let_def
        split: option.split cong: let_weak_cong prod.case_cong_weak)+

lemma statuses_dispatch:
  "sync_outcomes c args = [] \<Longrightarrow> statuses (dispatch_effects c args s) = [Loading]"
  "single_outcome c \<Longrightarrow>
     statuses (dispatch_effects c args s) \<in> {[Loading], [Loading, Success], [Loading, Error]}"
  using statuses_emitted [of "sync_outcomes c args" c "dispatch_handlers c s" args]
  by (auto simp: dispatch_effects_def single_outcome_def)

text \<open>
  A dispatch: the effects of a new invocation, which is the only one that can be live
  afterwards.
\<close>

lemma ok_dispatch:
  assumes a: "ok c s"
    and tr: "trace s' = trace s @ map (\<lambda>e. (now s, uuids s, e)) es"
    and u: "uuids s' = Suc (uuids s)"
    and sb: "\<And>k iv. subs s' k = Some iv \<Longrightarrow> k = uuids s"
    and p: "\<And>iv. subs s' (uuids s) = Some iv \<Longrightarrow> pointer c s' = Some (uuids s)"
    and dp: "debounceTime_pending s' = debounceTime_pending s"
    and st: "\<And>iv. subs s' (uuids s) = Some iv \<Longrightarrow> statuses es = [Loading]"
    and st1: "single_outcome c \<Longrightarrow>
                statuses es \<in> {[Loading], [Loading, Success], [Loading, Error]}"
  shows "ok c s'"
proof (rule okI)
  have le: "\<forall>m\<in>set (invocation_order (trace s)). m \<le> uuids s"
    using ok_bound [OF a] by fastforce
  show "sorted (invocation_order (trace s'))"
    using sorted_order_emit [OF ok_sorted [OF a] le] by (simp add: tr)
  show "m < uuids s'" if "m \<in> set (invocation_order (trace s'))" for m
    using that ok_bound [OF a, of m] invocation_order_emit [of "now s" "uuids s" es]
    by (auto simp: tr u)
  show "Suc k = uuids s'" if "subs s' k = Some iv" for k iv
    using sb [OF that] by (simp add: u)
  show "pointer c s' = Some k" if "subs s' k = Some iv" for k iv
    using sb [OF that] p that by simp
  show "debounceTime_pending s' = None" if "\<not> debounced (options c)"
    using that ok_pending [OF a] by (simp add: dp)
  show "status_writes k (trace s') = []" if "uuids s' \<le> k" for k
    using that ok_unused [OF a, of k] by (simp add: tr u status_writes_emit)
  show "status_writes k (trace s') = [Loading]" if "subs s' k = Some iv" for k iv
    using sb [OF that] st that ok_unused [OF a, of "uuids s"]
    by (simp add: tr status_writes_emit)
  show "status_writes k (trace s') \<in> {[Loading], [Loading, Success], [Loading, Error]}"
    if "single_outcome c" "k < uuids s'" for k
    using that ok_used [OF a, of k] ok_unused [OF a, of "uuids s"] st1
    by (cases "k = uuids s") (auto simp: tr u status_writes_emit)
qed

lemma ok_execute_now:
  assumes a: "ok c s" and nd: "\<not> debounced (options c)"
  shows "ok c (execute_now c args s)"
proof (rule ok_dispatch [OF a])
  show "subs (execute_now c args s) k = Some iv \<Longrightarrow> k = uuids s" for k iv
  proof (rule ccontr)
    assume live: "subs (execute_now c args s) k = Some iv" and ne: "k \<noteq> uuids s"
    then have old: "subs (unsubscribe (currentSub s) s) k = Some iv"
      by (simp add: execute_now_subs)
    then obtain iv' where "subs s k = Some iv'"
      by (auto split: option.splits subscription.splits if_splits)
    from ok_pointer [OF a this] nd have "currentSub s = Some (Execution k)"
      by (simp add: pointer_def split: option.splits subscription.splits)
    with old show False
      by simp
  qed
  show "pointer c (execute_now c args s) = Some (uuids s)" for iv
    using nd by (simp add: pointer_def execute_now_fields2)
  show "trace (execute_now c args s) =
     trace s @ map (\<lambda>e. (now s, uuids s, e)) (dispatch_effects c args s)"
    by (rule execute_now_fields)
  show "statuses (dispatch_effects c args s) = [Loading]"
    if "subs (execute_now c args s) (uuids s) = Some iv" for iv
    using that by (intro statuses_dispatch) (simp add: execute_now_subs split: if_splits)
  show "statuses (dispatch_effects c args s) \<in> {[Loading], [Loading, Success], [Loading, Error]}"
    if "single_outcome c"
    using that by (rule statuses_dispatch)
qed (simp_all add: execute_now_fields2)

lemma ok_switchMap_next:
  assumes a: "ok c s" and d: "debounced (options c)"
  shows "ok c (switchMap_next c args s)"
proof (rule ok_dispatch [OF a])
  show "subs (switchMap_next c args s) k = Some iv \<Longrightarrow> k = uuids s" for k iv
  proof (rule ccontr)
    assume live: "subs (switchMap_next c args s) k = Some iv" and ne: "k \<noteq> uuids s"
    then have old: "(case switchMap_inner s of Some n \<Rightarrow> (subs s)(n := None) | None \<Rightarrow> subs s) k
        = Some iv"
      by (simp add: switchMap_next_subs)
    then obtain iv' where "subs s k = Some iv'"
      by (auto split: option.splits if_splits)
    from ok_pointer [OF a this] d have "switchMap_inner s = Some k"
      by (simp add: pointer_def)
    with old show False
      by simp
  qed
  show "pointer c (switchMap_next c args s) = Some (uuids s)"
    if "subs (switchMap_next c args s) (uuids s) = Some iv" for iv
    using that d by (simp add: pointer_def switchMap_next_fields switchMap_next_subs split: if_splits)
  show "trace (switchMap_next c args s) =
     trace s @ map (\<lambda>e. (now s, uuids s, e)) (dispatch_effects c args s)"
    by (rule switchMap_next_fields)
  show "statuses (dispatch_effects c args s) = [Loading]"
    if "subs (switchMap_next c args s) (uuids s) = Some iv" for iv
    using that by (intro statuses_dispatch) (simp add: switchMap_next_subs split: if_splits)
  show "statuses (dispatch_effects c args s) \<in> {[Loading], [Loading, Success], [Loading, Error]}"
    if "single_outcome c"
    using that by (rule statuses_dispatch)
qed (simp_all add: switchMap_next_fields)

lemma ok_update:
  assumes "ok c s" "trace s' = trace s" "uuids s' = uuids s" "subs s' = subs s"
    "switchMap_inner s' = switchMap_inner s" "currentSub s' = currentSub s"
    "\<not> debounced (options c) \<Longrightarrow> debounceTime_pending s' = None"
  shows "ok c s'"
proof -
  have p: "pointer c s' = pointer c s"
    using assms by (simp add: pointer_def)
  show ?thesis
    using assms(1,7) unfolding ok_def p assms(2-6) by blast
qed

lemma ok_runSubject_next:
  "ok c s \<Longrightarrow> debounced (options c) \<Longrightarrow> ok c (runSubject_next c args s)"
  by (erule ok_update) (simp_all add: runSubject_next_def split: option.split)

lemma ok_timeout_cb: "ok c s \<Longrightarrow> ok c (timeout_cb c args s)"
  by (simp add: timeout_cb_def ok_runSubject_next ok_execute_now)

lemma ok_heap:
  "ok c s \<Longrightarrow> ok c (s\<lparr>heap := h, next_ref := r\<rparr>)"
  "ok c s \<Longrightarrow> ok c (s\<lparr>heap := h\<rparr>)"
  "ok c s \<Longrightarrow> ok c (s\<lparr>now := t\<rparr>)"
  "ok c s \<Longrightarrow> ok c (s\<lparr>timeouts := ts, now := t\<rparr>)"
  "ok c s \<Longrightarrow> ok c (s\<lparr>heap := h, next_ref := r, currentHandlers := r', timeouts := ts\<rparr>)"
  by (rule ok_update, assumption, simp_all add: ok_pending)+

lemma ok_run: "ok c s \<Longrightarrow> ok c (fst (run c args s))"
proof (cases "source c")
  case Part000
  assume "ok c s"
  then show ?thesis
    by (simp add: run_def run0_def Part000 Let_def ok_heap)
next
  case Part001
  assume "ok c s"
  then show ?thesis
    by (simp add: run_def run1_def Part001 Let_def ok_heap ok_runSubject_next ok_execute_now)
qed

lemma ok_fold_chain: "ok c s \<Longrightarrow> ok c (fold (chain c r) calls s)"
  by (simp add: fold_chain ok_heap split: source_file.split)

lemma ok_user_action: "ok c s \<Longrightarrow> ok c (user_action c act s)"
  using ok_run [of c s]
  by (cases act) (simp_all add: split_beta ok_fold_chain)

lemma ok_actions: "ok c s \<Longrightarrow> ok c (fold (user_action c) acts s)"
  by (induction acts arbitrary: s) (simp_all add: ok_user_action)

lemma ok_perform: "ok c s \<Longrightarrow> ok c (perform c st s)"
  by (cases st) (simp_all add: ok_actions ok_deliver ok_forkJoin_deliver split: producer.split)

lemma ok_fire_timeout: "ok c s \<Longrightarrow> ok c (fire_timeout c s)"
  by (simp add: fire_timeout_def ok_drain ok_timeout_cb ok_heap split: list.split)

lemma ok_fire_debounce: "ok c s \<Longrightarrow> ok c (fire_debounce c s)"
proof (cases "debounceTime_pending s")
  case None
  assume "ok c s"
  then show ?thesis
    by (simp add: fire_debounce_def None)
next
  case (Some p)
  assume a: "ok c s"
  with Some have d: "debounced (options c)"
    using ok_pending [OF a] by auto
  obtain t args where p: "p = (t, args)"
    by (cases p)
  have "ok c (s\<lparr>debounceTime_pending := None, now := max (now s) t\<rparr>)"
    by (rule ok_update [OF a]) simp_all
  then show ?thesis
    by (simp add: fire_debounce_def Some p ok_drain ok_switchMap_next d)
qed

lemma ok_advance: "ok c s \<Longrightarrow> ok c (advance c t s)"
proof (induction c t s rule: advance.induct)
  case (1 c t s)
  show ?case
  proof (cases "next_timer t s")
    case None
    with 1 show ?thesis by (simp add: advance.simps)
  next
    case (Some tm)
    with 1 show ?thesis
      by (cases tm) (simp_all add: advance.simps [of c t s] ok_fire_timeout ok_fire_debounce)
  qed
qed

lemma ok_handle: "ok c s \<Longrightarrow> ok c (handle c ev s)"
  by (cases ev) (simp add: handle_def Let_def ok_drain ok_perform ok_heap ok_advance)

lemma ok_exec: "ok c s \<Longrightarrow> ok c (exec c evs s)"
  unfolding exec_def by (induction evs arbitrary: s) (simp_all add: ok_handle)

lemma effects_in_invocation_order:
  "sorted (invocation_order (trace (exec c evs (createBaseAction c tr))))"
  by (rule ok_sorted [OF ok_exec [OF ok_init]])

section \<open>The tracker's pending set across an invocation\<close>

text \<open>
  Claim C4 (evaluation of the code where the claim fails). A tracked controller without
  debounce is run with \<open>a\<close> and, before that producer settles, with \<open>b\<close>; then the
  producer of \<open>b\<close> delivers a value. The first invocation was unsubscribed and neither
  callback of its subscriber ever runs, so its identifier is never removed: the pending
  count, 0 before the two invocations, is 1 when both are over. This holds in both
  controller files (in the first, the dispatches happen when the deferred callbacks
  fire).
\<close>

theorem superseded_invocation_stays_pending:
  "pendingCount (tracker (exec (createSignalAction Part001 (opts\<lparr>track := None, debounceMs := None\<rparr>))
      [(0, Task [Run a []]), (1, Task [Run b []]), (2, Settle 1 (Value d))]
      (createBaseAction (createSignalAction Part001 (opts\<lparr>track := None, debounceMs := None\<rparr>))
         new_tracker))) = 1
   \<and> pendingCount (tracker (exec (createSignalAction Part000 (opts\<lparr>track := None, debounceMs := None\<rparr>))
      [(0, Task [Run a []]), (1, Task [Run b []]), (2, Task []), (3, Settle 1 (Value d))]
      (createBaseAction (createSignalAction Part000 (opts\<lparr>track := None, debounceMs := None\<rparr>))
         new_tracker))) = 1
   \<and> pendingCount (new_tracker :: jsval GlobalHttpTracker) = 0"
  by (simp add: run_defs pendingCount_def tracker_begin_def tracker_success_def
      new_tracker_def randomUUID_def cong: let_weak_cong prod.case_cong_weak)

text \<open>
  For comparison: an invocation whose producer settles while it is still subscribed
  leaves the pending set as it found it.
\<close>

lemma settled_invocation_not_pending:
  "pending_sig (tracker (exec (createSignalAction Part001 (opts\<lparr>track := None, debounceMs := None\<rparr>))
      [(0, Task [Run a []]), (1, Settle 0 out)]
      (createBaseAction (createSignalAction Part001 (opts\<lparr>track := None, debounceMs := None\<rparr>))
         new_tracker))) = {}"
  by (cases out)
     (simp_all add: run_defs tracker_begin_def tracker_success_def tracker_error_def
      new_tracker_def cong: let_weak_cong prod.case_cong_weak)

section \<open>Callbacks registered on the handler chain\<close>

text \<open>
  Claim C6 (evaluation of the code where the claim fails). In the second controller
  file, \<^verbatim>\<open>run(a).onLoading(cb)\<close> followed by a value from the producer: the whole trace
  is the two signal writes, the subscription, the controller-level loading and success
  callbacks. The callback \<open>cb\<close> registered on the chain is never called: the chain writes
  to the handler object local to \<^verbatim>\<open>run\<close>, and the loading notification reads the
  handler object local to \<^verbatim>\<open>executeObservable\<close>.
\<close>

theorem chained_onLoading_never_called_part001:
  "trace (exec (createSignalAction Part001 (opts\<lparr>debounceMs := None\<rparr>))
      [(0, Task [Run a [OnLoading cb]]), (1, Settle 0 (Value d))]
      (createBaseAction (createSignalAction Part001 (opts\<lparr>debounceMs := None\<rparr>)) tr))
   = [(0, 0, StatusSet Loading), (0, 0, ErrorSet None), (0, 0, Subscribe a)]
     @ map (\<lambda>e. (0, 0, e)) (optional_call (\<lambda>f. OptionsOnLoading f a) (onLoading opts))
     @ [(1, 0, StatusSet Success)]
     @ map (\<lambda>e. (1, 0, e)) (optional_call (\<lambda>f. OptionsOnSuccess f d a) (onSuccess opts))"
  by (simp add: run_defs cong: let_weak_cong prod.case_cong_weak)

text \<open>
  The same calls on the first controller file: the dispatch is deferred, the chain has
  written to \<^verbatim>\<open>currentHandlers\<close> by then, and \<open>cb\<close> is called after the
  controller-level loading callback.
\<close>

lemma chained_onLoading_called_part000:
  "trace (exec (createSignalAction Part000 (opts\<lparr>debounceMs := None\<rparr>))
      [(0, Task [Run a [OnLoading cb]]), (1, Settle 0 (Value d))]
      (createBaseAction (createSignalAction Part000 (opts\<lparr>debounceMs := None\<rparr>)) tr))
   = [(0, 0, StatusSet Loading), (0, 0, ErrorSet None), (0, 0, Subscribe a)]
     @ map (\<lambda>e. (0, 0, e)) (optional_call (\<lambda>f. OptionsOnLoading f a) (onLoading opts))
     @ [(0, 0, HandlerLoading cb a), (1, 0, StatusSet Success)]
     @ map (\<lambda>e. (1, 0, e)) (optional_call (\<lambda>f. OptionsOnSuccess f d a) (onSuccess opts))"
  by (simp add: run_defs cong: let_weak_cong prod.case_cong_weak)

text \<open>
  The first file has a related fault, because all chains write to the one object that
  \<^verbatim>\<open>currentHandlers\<close> names: after \<^verbatim>\<open>run(a).onLoading(10); run(b).onLoading(11)\<close> in
  one task, the loading notification of the invocation with \<open>a\<close> calls the callback
  registered for \<open>b\<close>, and callback 10 is never called.
\<close>

lemma chained_onLoading_crosstalk_part000:
  "trace (exec (fetchUser Part000)
      [(0, Task [Run [JStr ''a''] [OnLoading 10], Run [JStr ''b''] [OnLoading 11]]), (2, Task [])]
      (createBaseAction (fetchUser Part000) new_tracker))
   = [(0, 0, StatusSet Loading), (0, 0, ErrorSet None), (0, 0, Subscribe [JStr ''a'']),
      (0, 0, HandlerLoading 11 [JStr ''a'']),
      (0, 1, StatusSet Loading), (0, 1, ErrorSet None), (0, 1, Subscribe [JStr ''b'']),
      (0, 1, HandlerLoading 11 [JStr ''b''])]"
  by (simp add: fetchUser_def run_defs cong: let_weak_cong prod.case_cong_weak)

text \<open>
  Claim C7 (evaluation of the code where the claim fails). In the second controller
  file, \<^verbatim>\<open>run(a).onSuccess(cb).continueWith(fn)\<close> followed by a value \<open>d\<close> from the
  producer: the controller-level success callback is called, but neither \<open>cb\<close> nor the
  follow-up \<open>fn\<close> is.
\<close>

theorem continueWith_never_called_part001:
  "trace (exec (createSignalAction Part001 (opts\<lparr>debounceMs := None\<rparr>))
      [(0, Task [Run a [OnSuccess cb, ContinueWith fn]]), (1, Settle 0 (Value d))]
      (createBaseAction (createSignalAction Part001 (opts\<lparr>debounceMs := None\<rparr>)) tr))
   = [(0, 0, StatusSet Loading), (0, 0, ErrorSet None), (0, 0, Subscribe a)]
     @ map (\<lambda>e. (0, 0, e)) (optional_call (\<lambda>f. OptionsOnLoading f a) (onLoading opts))
     @ [(1, 0, StatusSet Success)]
     @ map (\<lambda>e. (1, 0, e)) (optional_call (\<lambda>f. OptionsOnSuccess f d a) (onSuccess opts))"
  by (simp add: run_defs cong: let_weak_cong prod.case_cong_weak)

text \<open>
  On the first controller file the claim holds for these calls: the controller-level
  success callback, then \<open>cb\<close>, then the follow-up \<open>fn\<close> with the result \<open>d\<close>.
\<close>

lemma continueWith_keeps_onSuccess_part000:
  "trace (exec (createSignalAction Part000 (opts\<lparr>debounceMs := None\<rparr>))
      [(0, Task [Run a [OnSuccess cb, ContinueWith fn]]), (1, Settle 0 (Value d))]
      (createBaseAction (createSignalAction Part000 (opts\<lparr>debounceMs := None\<rparr>)) tr))
   = [(0, 0, StatusSet Loading), (0, 0, ErrorSet None), (0, 0, Subscribe a)]
     @ map (\<lambda>e. (0, 0, e)) (optional_call (\<lambda>f. OptionsOnLoading f a) (onLoading opts))
     @ [(1, 0, StatusSet Success)]
     @ map (\<lambda>e. (1, 0, e)) (optional_call (\<lambda>f. OptionsOnSuccess f d a) (onSuccess opts))
     @ [(1, 0, HandlerSuccess cb d a), (1, 0, NextActionFn fn d a)]"
  by (simp add: run_defs cong: let_weak_cong prod.case_cong_weak)

section \<open>Debounce\<close>

text \<open>
  What a producer emits inside \<^verbatim>\<open>subscribe\<close> does not subscribe again, and every
  effect of a list stamped with one time and one invocation carries that stamp.
\<close>

lemma list_all_stamp: "list_all (\<lambda>x. fst x = t \<and> fst (snd x) = n) (map (\<lambda>e. (t, n, e)) es)"
  by (simp add: list_all_iff)

lemma no_Subscribe_call_success: "Subscribe args \<notin> set (call_success h d as)"
  by (induction h d as rule: call_success.induct) simp_all

lemma no_Subscribe_success: "Subscribe args \<notin> set (success_effects c h d as)"
  by (auto simp: success_effects_def optional_call_def optional_success_def
      no_Subscribe_call_success split: option.splits)

lemma no_Subscribe_failure: "Subscribe args \<notin> set (failure_effects c h e as)"
  by (auto simp: failure_effects_def optional_call_def split: option.splits source_file.splits)

lemma no_Subscribe_emitted: "Subscribe args \<notin> set (emitted_effects c h as outs)"
  by (induction c h as outs rule: emitted_effects.induct)
     (simp_all add: no_Subscribe_success no_Subscribe_failure)

lemma filter_Subscribe_emitted:
  "filter (\<lambda>x. \<exists>args. snd (snd x) = Subscribe args)
     (map (\<lambda>e. (t, n, e)) (emitted_effects c h as outs)) = []"
  by (auto simp: filter_empty_conv no_Subscribe_emitted)

text \<open>
  Claim C2. A controller with \<^verbatim>\<open>debounceMs = 300\<close>, of either file, with any producer,
  other options, arguments and chained registrations, is run at times 0, 100 and 150.
  After these three calls nothing has been written or called: the trace is empty, the
  status is still idle, the error and the tracker are untouched. Once the clock has
  passed 450, the producer has been subscribed to exactly once, at time 450, with the
  arguments of the call at 150, and every effect in the trace is an effect of that one
  invocation at time 450.
\<close>

theorem debounce_dispatches_last_arguments_once:
  assumes "debounceMs (options c) = Some 300" and "450 < T"
  shows "(let s = exec c [(0, Task [Run a0 k0]), (100, Task [Run a1 k1]), (150, Task [Run a2 k2])]
                   (createBaseAction c tr)
          in trace s = [] \<and> status s = Idle \<and> error s = None \<and> tracker s = tr)
       \<and> (let s = exec c [(0, Task [Run a0 k0]), (100, Task [Run a1 k1]), (150, Task [Run a2 k2]),
                          (T, Task [])] (createBaseAction c tr)
          in filter (\<lambda>x. \<exists>args. snd (snd x) = Subscribe args) (trace s) = [(450, 0, Subscribe a2)]
           \<and> list_all (\<lambda>x. fst x = 450 \<and> fst (snd x) = 0) (trace s)
           \<and> take 3 (trace s) = [(450, 0, StatusSet Loading), (450, 0, ErrorSet None),
                                  (450, 0, Subscribe a2)])"
  using assms
  by (cases "source c"; cases "getObservable c")
     (simp_all add: run_defs optional_call_def emitted_fields filter_Subscribe_emitted
      list_all_stamp split: option.split cong: let_weak_cong prod.case_cong_weak)

theorem debounce_dispatches_last_arguments_once_witness:
  "debounceMs (options (createSignalAction Part000
      \<lparr>track = None, debounceMs = Some 300, onLoading = Some 1, onSuccess = None, onError = None\<rparr>))
     = Some 300
   \<and> (450::nat) < 451
   \<and> filter (\<lambda>x. \<exists>args. snd (snd x) = Subscribe args)
        (trace (exec (createSignalAction Part000
            \<lparr>track = None, debounceMs = Some 300, onLoading = Some 1, onSuccess = None,
             onError = None\<rparr>)
          [(0, Task [Run [JStr ''a''] []]), (100, Task [Run [JStr ''ab''] []]),
           (150, Task [Run [JStr ''abc''] [OnLoading 7]]), (451, Task [])]
          (createBaseAction (createSignalAction Part000
            \<lparr>track = None, debounceMs = Some 300, onLoading = Some 1, onSuccess = None,
             onError = None\<rparr>) new_tracker)))
      = [(450, 0, Subscribe [JStr ''abc''])]"
proof -
  have h: "debounceMs (options (createSignalAction Part000
      \<lparr>track = None, debounceMs = Some 300, onLoading = Some 1, onSuccess = None, onError = None\<rparr>))
     = Some 300"
    by (simp add: createSignalAction_def)
  have t: "(450::nat) < 451"
    by simp
  from debounce_dispatches_last_arguments_once [OF h t,
      of "[JStr ''a'']" "[]" "[JStr ''ab'']" "[]" "[JStr ''abc'']" "[OnLoading 7]" new_tracker]
  have "filter (\<lambda>x. \<exists>args. snd (snd x) = Subscribe args)
        (trace (exec (createSignalAction Part000
            \<lparr>track = None, debounceMs = Some 300, onLoading = Some 1, onSuccess = None,
             onError = None\<rparr>)
          [(0, Task [Run [JStr ''a''] []]), (100, Task [Run [JStr ''ab''] []]),
           (150, Task [Run [JStr ''abc''] [OnLoading 7]]), (451, Task [])]
          (createBaseAction (createSignalAction Part000
            \<lparr>track = None, debounceMs = Some 300, onLoading = Some 1, onSuccess = None,
             onError = None\<rparr>) new_tracker)))
      = [(450, 0, Subscribe [JStr ''abc''])]"
    unfolding Let_def by (rule conjunct1 [OF conjunct2])
  with h t show ?thesis
    by (intro conjI)
qed

section \<open>A debounce time of zero\<close>

abbreviation zero_ms :: "controller \<Rightarrow> controller" where
  "zero_ms c \<equiv> c\<lparr>options := (options c)\<lparr>debounceMs := Some 0\<rparr>\<rparr>"

abbreviation no_ms :: "controller \<Rightarrow> controller" where
  "no_ms c \<equiv> c\<lparr>options := (options c)\<lparr>debounceMs := None\<rparr>\<rparr>"

lemma zero_executeObservable: "executeObservable (zero_ms c) = executeObservable (no_ms c)"
  by (simp add: fun_eq_iff executeObservable_def executeObservable0_def executeObservable1_def
      split: source_file.split)

lemma zero_next_cb: "next_cb (zero_ms c) = next_cb (no_ms c)"
  by (simp add: fun_eq_iff next_cb_def)

lemma zero_error_cb: "error_cb (zero_ms c) = error_cb (no_ms c)"
  by (simp add: fun_eq_iff error_cb_def error_cb0_def error_cb1_def split: source_file.split)

lemma zero_emitted: "emitted (zero_ms c) iv outs s = emitted (no_ms c) iv outs s"
proof (induction outs arbitrary: s)
  case Nil
  show ?case by simp
next
  case (Cons out outs)
  then show ?case
    by (cases out) (simp_all add: zero_next_cb zero_error_cb)
qed

lemma zero_subscribe: "subscribe (zero_ms c) = subscribe (no_ms c)"
  by (simp add: fun_eq_iff subscribe_def zero_emitted)

lemma zero_deliver: "deliver (zero_ms c) = deliver (no_ms c)"
  by (simp add: fun_eq_iff deliver_def zero_next_cb zero_error_cb
      split: option.split outcome.split)

lemma zero_forkJoin_deliver: "forkJoin_deliver (zero_ms c) = forkJoin_deliver (no_ms c)"
  by (simp add: fun_eq_iff forkJoin_deliver_def zero_next_cb zero_error_cb Let_def
      split: option.split outcome.split)

lemma zero_execute_now: "execute_now (zero_ms c) = execute_now (no_ms c)"
  by (simp add: fun_eq_iff execute_now_def zero_executeObservable zero_subscribe)

lemma zero_switchMap_next: "switchMap_next (zero_ms c) = switchMap_next (no_ms c)"
  by (simp add: fun_eq_iff switchMap_next_def zero_executeObservable zero_subscribe)

lemma zero_timeout_cb: "timeout_cb (zero_ms c) = timeout_cb (no_ms c)"
  by (simp add: fun_eq_iff timeout_cb_def debounced_def zero_execute_now)

lemma zero_run: "run (zero_ms c) = run (no_ms c)"
  by (simp add: fun_eq_iff run_def run0_def run1_def debounced_def zero_execute_now
      split: source_file.split)

lemma zero_chain: "chain (zero_ms c) = chain (no_ms c)"
  by (simp add: fun_eq_iff chain_def)

lemma zero_user_action: "user_action (zero_ms c) act = user_action (no_ms c) act"
  by (cases act) (simp_all add: fun_eq_iff zero_run zero_chain)

lemma zero_perform: "perform (zero_ms c) st s = perform (no_ms c) st s"
proof -
  have "user_action (zero_ms c) = user_action (no_ms c)"
    by (rule ext) (rule zero_user_action)
  then show ?thesis
    by (cases st) (simp_all add: zero_deliver zero_forkJoin_deliver split: producer.split)
qed

lemma zero_loading_microtask: "loading_microtask (zero_ms c) = loading_microtask (no_ms c)"
  by (rule ext)+ (simp add: loading_microtask_def)

lemma zero_drain: "drain (zero_ms c) s = drain (no_ms c) s"
  by (simp add: drain_def zero_loading_microtask)

lemma zero_fire_timeout: "fire_timeout (zero_ms c) s = fire_timeout (no_ms c) s"
  by (simp add: fire_timeout_def zero_drain zero_timeout_cb split: list.split)

lemma zero_fire_debounce: "fire_debounce (zero_ms c) s = fire_debounce (no_ms c) s"
  by (simp add: fire_debounce_def zero_drain zero_switchMap_next split: option.split)

lemma zero_advance: "advance (zero_ms c) t s = advance (no_ms c) t s"
proof (induction "no_ms c" t s rule: advance.induct)
  case (1 t s)
  show ?case
  proof (cases "next_timer t s")
    case None
    then show ?thesis
      by (simp add: advance.simps)
  next
    case (Some tm)
    with 1 show ?thesis
      by (cases tm)
         (simp_all add: advance.simps [of _ t s] zero_fire_timeout zero_fire_debounce)
  qed
qed

lemma zero_handle: "handle (zero_ms c) ev s = handle (no_ms c) ev s"
  by (cases ev) (simp add: handle_def zero_advance zero_perform zero_drain)

lemma zero_exec: "exec (zero_ms c) evs s = exec (no_ms c) evs s"
proof -
  have "handle (zero_ms c) = handle (no_ms c)"
    by (rule ext)+ (rule zero_handle)
  then show ?thesis
    by (simp add: exec_def)
qed

text \<open>
  Claim C10 (amended). The claim as stated fails in the first controller file, where
  \<^verbatim>\<open>run\<close> never dispatches: it sets a timer with \<^verbatim>\<open>setTimeout(..., 0)\<close> and the
  dispatch happens when that callback runs, after the current task. What holds:
  a controller constructed with \<^verbatim>\<open>debounceMs = 0\<close> (\<open>zero_ms c\<close>) behaves as one
  constructed without \<^verbatim>\<open>debounceMs\<close> (\<open>no_ms c\<close>), because the option is tested for
  truthiness and 0 is falsy: the initial states are equal, with no subscription to a
  debounce pipeline, and every execution from any state gives the same state. An
  invocation is dispatched without debounce. In the second file the dispatch is part of
  the call of \<^verbatim>\<open>run\<close>: from any state, the effects of \<^verbatim>\<open>run\<close> begin with the write
  of loading, the reset of the error and the subscription to the producer, and after a
  first call at time \<open>t\<close> no timer of any kind is left. In the first file \<^verbatim>\<open>run\<close>
  leaves the trace as it was and queues the deferred callback, whose effects begin with
  the same three; after a first call at time \<open>t\<close> nothing has happened when the task
  ends, and by any later time \<open>T\<close> the invocation has been dispatched, at time \<open>t\<close>
  of the clock, with no debounce timer ever set.
\<close>

theorem debounce_zero_is_no_debounce:
  "createBaseAction (zero_ms c) tr = createBaseAction (no_ms c) tr
   \<and> exec (zero_ms c) evs s = exec (no_ms c) evs s
   \<and> \<not> debounced (options (zero_ms c))
   \<and> currentSub (createBaseAction (zero_ms c) tr) = None
   \<and> (source c = Part001 \<longrightarrow>
        take 3 (drop (length (trace s)) (trace (fst (run (zero_ms c) args s))))
          = [(now s, uuids s, StatusSet Loading), (now s, uuids s, ErrorSet None),
             (now s, uuids s, Subscribe args)]
        \<and> (let s' = exec (zero_ms c) [(t, Task [Run args calls])] (createBaseAction (zero_ms c) tr)
           in take 3 (trace s')
                = [(t, 0, StatusSet Loading), (t, 0, ErrorSet None), (t, 0, Subscribe args)]
              \<and> debounceTime_pending s' = None \<and> timeouts s' = []))
   \<and> (source c = Part000 \<longrightarrow>
        trace (fst (run (zero_ms c) args s)) = trace s
        \<and> timeouts (fst (run (zero_ms c) args s)) = timeouts s @ [(now s, args)]
        \<and> take 3 (drop (length (trace s)) (trace (timeout_cb (zero_ms c) args s)))
          = [(now s, uuids s, StatusSet Loading), (now s, uuids s, ErrorSet None),
             (now s, uuids s, Subscribe args)]
        \<and> (let s' = exec (zero_ms c) [(t, Task [Run args calls])] (createBaseAction (zero_ms c) tr)
           in trace s' = [] \<and> status s' = Idle \<and> timeouts s' = [(t, args)]
              \<and> debounceTime_pending s' = None)
        \<and> (t < T \<longrightarrow>
             (let s' = exec (zero_ms c) [(t, Task [Run args calls]), (T, Task [])]
                         (createBaseAction (zero_ms c) tr)
              in take 3 (trace s')
                   = [(t, 0, StatusSet Loading), (t, 0, ErrorSet None), (t, 0, Subscribe args)]
                 \<and> debounceTime_pending s' = None \<and> timeouts s' = [])))"
proof -
  have same: "createBaseAction (zero_ms c) tr = createBaseAction (no_ms c) tr
      \<and> \<not> debounced (options (zero_ms c))
      \<and> currentSub (createBaseAction (zero_ms c) tr) = None"
    by (simp add: createBaseAction_def debounced_def)
  have in_run: "take 3 (drop (length (trace s)) (trace (fst (run (zero_ms c) args s))))
          = [(now s, uuids s, StatusSet Loading), (now s, uuids s, ErrorSet None),
             (now s, uuids s, Subscribe args)]"
    if "source c = Part001"
    using that
    by (simp add: run_def run1_def debounced_def execute_now_fields dispatch_effects_def Let_def)
  have first1: "let s' = exec (zero_ms c) [(t, Task [Run args calls])] (createBaseAction (zero_ms c) tr)
           in take 3 (trace s')
                = [(t, 0, StatusSet Loading), (t, 0, ErrorSet None), (t, 0, Subscribe args)]
              \<and> debounceTime_pending s' = None \<and> timeouts s' = []"
    if "source c = Part001"
    using that
    by (cases "getObservable c")
       (simp_all add: run_defs emitted_fields cong: let_weak_cong prod.case_cong_weak)
  have deferred: "trace (fst (run (zero_ms c) args s)) = trace s
        \<and> timeouts (fst (run (zero_ms c) args s)) = timeouts s @ [(now s, args)]
        \<and> take 3 (drop (length (trace s)) (trace (timeout_cb (zero_ms c) args s)))
          = [(now s, uuids s, StatusSet Loading), (now s, uuids s, ErrorSet None),
             (now s, uuids s, Subscribe args)]"
    if "source c = Part000"
    using that
    by (simp add: run_def run0_def timeout_cb_def debounced_def execute_now_fields
        dispatch_effects_def Let_def)
  have first0: "let s' = exec (zero_ms c) [(t, Task [Run args calls])] (createBaseAction (zero_ms c) tr)
           in trace s' = [] \<and> status s' = Idle \<and> timeouts s' = [(t, args)]
              \<and> debounceTime_pending s' = None"
    if "source c = Part000"
    using that by (simp add: run_defs cong: let_weak_cong prod.case_cong_weak)
  have later0: "let s' = exec (zero_ms c) [(t, Task [Run args calls]), (T, Task [])]
                         (createBaseAction (zero_ms c) tr)
              in take 3 (trace s')
                   = [(t, 0, StatusSet Loading), (t, 0, ErrorSet None), (t, 0, Subscribe args)]
                 \<and> debounceTime_pending s' = None \<and> timeouts s' = []"
    if "source c = Part000" "t < T"
    using that
    by (cases "getObservable c")
       (simp_all add: run_defs emitted_fields cong: let_weak_cong prod.case_cong_weak)
  from same zero_exec [of c evs s] in_run first1 deferred first0 later0 show ?thesis
    by blast
qed

theorem debounce_zero_is_no_debounce_witness:
  "source (createSignalAction Part001
      \<lparr>track = None, debounceMs = Some 0, onLoading = None, onSuccess = None, onError = None\<rparr>)
     = Part001
   \<and> trace (exec (createSignalAction Part001
        \<lparr>track = None, debounceMs = Some 0, onLoading = None, onSuccess = None, onError = None\<rparr>)
      [(5, Task [Run [JStr ''a''] []])]
      (createBaseAction (createSignalAction Part001
        \<lparr>track = None, debounceMs = Some 0, onLoading = None, onSuccess = None, onError = None\<rparr>)
        new_tracker))
     = [(5, 0, StatusSet Loading), (5, 0, ErrorSet None), (5, 0, Subscribe [JStr ''a''])]
   \<and> source (createSignalAction Part000
      \<lparr>track = None, debounceMs = Some 0, onLoading = None, onSuccess = None, onError = None\<rparr>)
     = Part000
   \<and> (5::nat) < 6
   \<and> trace (exec (createSignalAction Part000
        \<lparr>track = None, debounceMs = Some 0, onLoading = None, onSuccess = None, onError = None\<rparr>)
      [(5, Task [Run [JStr ''a''] []]), (6, Task [])]
      (createBaseAction (createSignalAction Part000
        \<lparr>track = None, debounceMs = Some 0, onLoading = None, onSuccess = None, onError = None\<rparr>)
        new_tracker))
     = [(5, 0, StatusSet Loading), (5, 0, ErrorSet None), (5, 0, Subscribe [JStr ''a''])]"
proof -
  note second = debounce_zero_is_no_debounce [where c = "createSignalAction Part001
        \<lparr>track = None, debounceMs = Some 0, onLoading = None, onSuccess = None, onError = None\<rparr>"
      and t = 5 and args = "[JStr ''a'']" and calls = "[]" and tr = new_tracker]
  note first = debounce_zero_is_no_debounce [where c = "createSignalAction Part000
        \<lparr>track = None, debounceMs = Some 0, onLoading = None, onSuccess = None, onError = None\<rparr>"
      and t = 5 and T = 6 and args = "[JStr ''a'']" and calls = "[]" and tr = new_tracker]
  from second first show ?thesis
    by (simp add: run_defs cong: let_weak_cong prod.case_cong_weak)
qed

text \<open>
  The claim as stated, refuted. In the first controller file, with \<^verbatim>\<open>debounceMs = 0\<close>,
  the call \<^verbatim>\<open>run(a)\<close> has dispatched nothing when it returns and the task ends: no
  signal is written, the status is still idle, the producer is not subscribed, and the
  deferred callback waits in the timer queue.
\<close>

theorem run_with_zero_debounce_only_defers_part000:
  "trace (exec (createSignalAction Part000
        \<lparr>track = None, debounceMs = Some 0, onLoading = None, onSuccess = None, onError = None\<rparr>)
      [(5, Task [Run [JStr ''a''] []])]
      (createBaseAction (createSignalAction Part000
        \<lparr>track = None, debounceMs = Some 0, onLoading = None, onSuccess = None, onError = None\<rparr>)
        new_tracker)) = []
   \<and> status (exec (createSignalAction Part000
        \<lparr>track = None, debounceMs = Some 0, onLoading = None, onSuccess = None, onError = None\<rparr>)
      [(5, Task [Run [JStr ''a''] []])]
      (createBaseAction (createSignalAction Part000
        \<lparr>track = None, debounceMs = Some 0, onLoading = None, onSuccess = None, onError = None\<rparr>)
        new_tracker)) = Idle
   \<and> subs (exec (createSignalAction Part000
        \<lparr>track = None, debounceMs = Some 0, onLoading = None, onSuccess = None, onError = None\<rparr>)
      [(5, Task [Run [JStr ''a''] []])]
      (createBaseAction (createSignalAction Part000
        \<lparr>track = None, debounceMs = Some 0, onLoading = None, onSuccess = None, onError = None\<rparr>)
        new_tracker)) 0 = None
   \<and> timeouts (exec (createSignalAction Part000
        \<lparr>track = None, debounceMs = Some 0, onLoading = None, onSuccess = None, onError = None\<rparr>)
      [(5, Task [Run [JStr ''a''] []])]
      (createBaseAction (createSignalAction Part000
        \<lparr>track = None, debounceMs = Some 0, onLoading = None, onSuccess = None, onError = None\<rparr>)
        new_tracker)) = [(5, [JStr ''a''])]"
  by (simp add: run_defs cong: let_weak_cong prod.case_cong_weak)

section \<open>Superseding an invocation\<close>

text \<open>
  Claim C3 (amended). The claim as stated fails: \<^verbatim>\<open>run\<close> does not cancel the previous
  invocation when it is called, but when the new invocation is dispatched, which is
  after the debounce time on a debounced controller and, in the first file, after the
  deferred callback. What holds for every controller, of either file, and every
  execution: once an effect of invocation \<open>m\<close> has happened (the first effect of an
  invocation is the write of loading at its dispatch), every later write of the status or
  error signal and every later call of a success, error or finally callback belongs to
  an invocation \<open>n\<close> with \<open>m \<le> n\<close>. So after the second invocation is dispatched the
  first one never writes a signal and none of its callbacks fires.
\<close>

theorem later_dispatch_silences_earlier_invocation:
  assumes "trace (exec c evs (createBaseAction c tr)) = before @ (t, m, e) # after"
    and "\<not> is_loading_notice e"
    and "(t', n, e') \<in> set after"
    and "\<not> is_loading_notice e'"
  shows "m \<le> n"
proof -
  have "sorted (invocation_order (trace (exec c evs (createBaseAction c tr))))"
    by (rule effects_in_invocation_order)
  then have "sorted (invocation_order before @ m # invocation_order after)"
    using assms(1,2) by (simp add: invocation_order_def)
  then have "\<forall>x\<in>set (invocation_order after). m \<le> x"
    by (simp add: sorted_append)
  moreover have "n \<in> set (invocation_order after)"
    using assms(3,4) by (force simp: invocation_order_def)
  ultimately show ?thesis
    by blast
qed

theorem later_dispatch_silences_earlier_invocation_witness:
  "trace (exec (createSignalAction Part001
        \<lparr>track = None, debounceMs = None, onLoading = None, onSuccess = None, onError = None\<rparr>)
      [(0, Task [Run [JStr ''a''] []]), (1, Task [Run [JStr ''b''] []]),
       (2, Settle 0 (Value (JNum 5))), (3, Settle 1 (Value (JNum 7)))]
      (createBaseAction (createSignalAction Part001
        \<lparr>track = None, debounceMs = None, onLoading = None, onSuccess = None, onError = None\<rparr>)
        new_tracker))
    = [(0, 0, StatusSet Loading), (0, 0, ErrorSet None), (0, 0, Subscribe [JStr ''a''])]
      @ (1, 1, StatusSet Loading)
      # [(1, 1, ErrorSet None), (1, 1, Subscribe [JStr ''b'']), (3, 1, StatusSet Success)]
   \<and> \<not> is_loading_notice (StatusSet Loading)
   \<and> (3, 1, StatusSet Success)
       \<in> set [(1, 1, ErrorSet None), (1, 1, Subscribe [JStr ''b'']), (3, 1, StatusSet Success)]
   \<and> \<not> is_loading_notice (StatusSet Success)
   \<and> (1::nat) \<le> 1"
proof -
  have tr: "trace (exec (createSignalAction Part001
        \<lparr>track = None, debounceMs = None, onLoading = None, onSuccess = None, onError = None\<rparr>)
      [(0, Task [Run [JStr ''a''] []]), (1, Task [Run [JStr ''b''] []]),
       (2, Settle 0 (Value (JNum 5))), (3, Settle 1 (Value (JNum 7)))]
      (createBaseAction (createSignalAction Part001
        \<lparr>track = None, debounceMs = None, onLoading = None, onSuccess = None, onError = None\<rparr>)
        new_tracker))
    = [(0, 0, StatusSet Loading), (0, 0, ErrorSet None), (0, 0, Subscribe [JStr ''a''])]
      @ (1, 1, StatusSet Loading)
      # [(1, 1, ErrorSet None), (1, 1, Subscribe [JStr ''b'']), (3, 1, StatusSet Success)]"
    by (simp add: run_defs cong: let_weak_cong prod.case_cong_weak)
  have l1: "\<not> is_loading_notice (StatusSet Loading)"
    by simp
  have mem: "(3, 1, StatusSet Success)
       \<in> set [(1, 1, ErrorSet None), (1, 1, Subscribe [JStr ''b'']), (3, 1, StatusSet Success)]"
    by simp
  have l2: "\<not> is_loading_notice (StatusSet Success)"
    by simp
  from later_dispatch_silences_earlier_invocation [OF tr l1 mem l2] tr l1 mem l2
  show ?thesis
    by (intro conjI)
qed

text \<open>
  The claim as stated, refuted. On a debounced controller of the first file, the first
  invocation is dispatched at 300; \<^verbatim>\<open>run\<close> is called again at 310 while the first
  producer is outstanding; at 320 the first producer delivers a value, and the first
  invocation writes success to the status and its onSuccess and finally callbacks are
  called. On the second file the status write happens the same way.
\<close>

theorem stale_callbacks_during_debounce_window:
  "trace (exec (createSignalAction Part000
        \<lparr>track = None, debounceMs = Some 300, onLoading = None, onSuccess = None, onError = None\<rparr>)
      [(0, Task [Run [JStr ''a''] [OnSuccess 1, Finally 2]]), (301, Task []),
       (310, Task [Run [JStr ''b''] []]), (320, Settle 0 (Value (JNum 1)))]
      (createBaseAction (createSignalAction Part000
        \<lparr>track = None, debounceMs = Some 300, onLoading = None, onSuccess = None, onError = None\<rparr>)
        new_tracker))
    = [(300, 0, StatusSet Loading), (300, 0, ErrorSet None), (300, 0, Subscribe [JStr ''a'']),
       (320, 0, StatusSet Success), (320, 0, HandlerSuccess 1 (JNum 1) [JStr ''a'']),
       (320, 0, HandlerFinally 2)]
   \<and> trace (exec (createSignalAction Part001
        \<lparr>track = None, debounceMs = Some 300, onLoading = None, onSuccess = None, onError = None\<rparr>)
      [(0, Task [Run [JStr ''a''] []]), (301, Task []),
       (310, Task [Run [JStr ''b''] []]), (320, Settle 0 (Value (JNum 1)))]
      (createBaseAction (createSignalAction Part001
        \<lparr>track = None, debounceMs = Some 300, onLoading = None, onSuccess = None, onError = None\<rparr>)
        new_tracker))
    = [(300, 0, StatusSet Loading), (300, 0, ErrorSet None), (300, 0, Subscribe [JStr ''a'']),
       (320, 0, StatusSet Success)]"
  by (simp add: run_defs cong: let_weak_cong prod.case_cong_weak)

section \<open>Status transitions of an invocation\<close>

text \<open>
  When the producer of a subscribed invocation delivers a value the status becomes
  success; when it delivers a failure the status becomes error and the error signal holds
  the reported failure value; either closes the subscription. And if the producer of a
  controller never emits more than one outcome inside \<^verbatim>\<open>subscribe\<close> (as every producer
  that emits after \<^verbatim>\<open>subscribe\<close> has returned, and every fork-join producer), then in
  every execution what an invocation writes to the status signal is nothing (not
  dispatched), loading, or loading followed by exactly one of success and error.
\<close>

lemma outcome_sets_status:
  assumes "subs s n = Some iv"
  shows "status (deliver c n (Value d) s) = Success"
    and "status (deliver c n (Failure e) s) = Error"
    and "error (deliver c n (Failure e) s) = Some (reported c e)"
    and "subs (deliver c n out s) n = None"
  using assms
  by (simp_all add: deliver_def next_cb_state error_cb_state split: outcome.split)

lemma single_outcome_simps:
  "single_outcome (createSignalAction f opts)"
  "single_outcome (createSignalForkJoinAction f g opts)"
  "single_outcome (createSignalAction_sync f h opts) \<longleftrightarrow> (\<forall>args. length (h args) \<le> 1)"
  by (simp_all add: single_outcome_def sync_outcomes_def createSignalAction_def
      createSignalForkJoinAction_def createSignalAction_sync_def)

lemma status_loading_then_one_outcome:
  assumes "single_outcome c"
  shows "status_writes n (trace (exec c evs (createBaseAction c tr)))
     \<in> {[], [Loading], [Loading, Success], [Loading, Error]}"
proof -
  let ?s = "exec c evs (createBaseAction c tr)"
  have a: "ok c ?s"
    by (rule ok_exec [OF ok_init])
  show ?thesis
    using ok_unused [OF a, of n] ok_used [OF a assms, of n] by (cases "n < uuids ?s") auto
qed

text \<open>
  Claim C9 (evaluation of the code where the claim fails). A producer that emits inside
  its \<^verbatim>\<open>subscribe\<close> call reaches the callbacks of the subscriber with every outcome:
  \<^verbatim>\<open>subscriber.complete()\<close> in the \<^verbatim>\<open>next\<close> callback closes the subscriber of the
  invocation, but the teardown that would unsubscribe from the producer is returned only
  after the call. In the second controller file, one call of \<^verbatim>\<open>run\<close> on a controller
  whose producer emits the value 1 and then fails with an \<^verbatim>\<open>HttpErrorResponse\<close> whose
  body is \<^verbatim>\<open>denied\<close>: the invocation writes loading, success and error to the status
  signal, the error signal holds the message \<^verbatim>\<open>denied\<close>, and both the controller-level
  success callback and the controller-level error callback are called. In the first
  controller file, one call of \<^verbatim>\<open>run\<close> on a controller whose producer emits 1 and 2,
  as \<^verbatim>\<open>of(1, 2)\<close> does: the invocation writes loading, success and success again, and
  the success callback is called twice.
\<close>

theorem synchronous_producer_sets_status_twice:
  "trace (exec (createSignalAction_sync Part001
          (\<lambda>args. [Value (JNum 1),
                     Failure (JObj [(''name'', JStr ''HttpErrorResponse''), (''error'', JStr ''denied'')])])
        \<lparr>track = None, debounceMs = None, onLoading = None, onSuccess = Some 1, onError = Some 2\<rparr>)
      [(0, Task [Run [JStr ''a''] []])]
      (createBaseAction (createSignalAction_sync Part001
          (\<lambda>args. [Value (JNum 1),
                     Failure (JObj [(''name'', JStr ''HttpErrorResponse''), (''error'', JStr ''denied'')])])
        \<lparr>track = None, debounceMs = None, onLoading = None, onSuccess = Some 1, onError = Some 2\<rparr>)
        new_tracker))
    = [(0, 0, StatusSet Loading), (0, 0, ErrorSet None), (0, 0, Subscribe [JStr ''a'']),
       (0, 0, StatusSet Success), (0, 0, OptionsOnSuccess 1 (JNum 1) [JStr ''a'']),
       (0, 0, ConsoleError ''denied''), (0, 0, ErrorSet (Some (JStr ''denied''))),
       (0, 0, StatusSet Error), (0, 0, OptionsOnError 2 (JStr ''denied'') [JStr ''a''])]
   \<and> status_writes 0 (trace (exec (createSignalAction_sync Part001
          (\<lambda>args. [Value (JNum 1),
                     Failure (JObj [(''name'', JStr ''HttpErrorResponse''), (''error'', JStr ''denied'')])])
        \<lparr>track = None, debounceMs = None, onLoading = None, onSuccess = Some 1, onError = Some 2\<rparr>)
      [(0, Task [Run [JStr ''a''] []])]
      (createBaseAction (createSignalAction_sync Part001
          (\<lambda>args. [Value (JNum 1),
                     Failure (JObj [(''name'', JStr ''HttpErrorResponse''), (''error'', JStr ''denied'')])])
        \<lparr>track = None, debounceMs = None, onLoading = None, onSuccess = Some 1, onError = Some 2\<rparr>)
        new_tracker)))
    = [Loading, Success, Error]
   \<and> trace (exec (createSignalAction_sync Part000 (\<lambda>args. [Value (JNum 1), Value (JNum 2)])
        \<lparr>track = None, debounceMs = None, onLoading = None, onSuccess = Some 1, onError = Some 2\<rparr>)
      [(0, Task [Run [JStr ''a''] []]), (1, Task [])]
      (createBaseAction (createSignalAction_sync Part000
          (\<lambda>args. [Value (JNum 1), Value (JNum 2)])
        \<lparr>track = None, debounceMs = None, onLoading = None, onSuccess = Some 1, onError = Some 2\<rparr>)
        new_tracker))
    = [(0, 0, StatusSet Loading), (0, 0, ErrorSet None), (0, 0, Subscribe [JStr ''a'']),
       (0, 0, StatusSet Success), (0, 0, OptionsOnSuccess 1 (JNum 1) [JStr ''a'']),
       (0, 0, StatusSet Success), (0, 0, OptionsOnSuccess 1 (JNum 2) [JStr ''a''])]
   \<and> status_writes 0 (trace (exec (createSignalAction_sync Part000
          (\<lambda>args. [Value (JNum 1), Value (JNum 2)])
        \<lparr>track = None, debounceMs = None, onLoading = None, onSuccess = Some 1, onError = Some 2\<rparr>)
      [(0, Task [Run [JStr ''a''] []]), (1, Task [])]
      (createBaseAction (createSignalAction_sync Part000
          (\<lambda>args. [Value (JNum 1), Value (JNum 2)])
        \<lparr>track = None, debounceMs = None, onLoading = None, onSuccess = Some 1, onError = Some 2\<rparr>)
        new_tracker)))
    = [Loading, Success, Success]"
  by (simp add: run_defs extractErrorMessage_def status_writes_def statuses_def
      cong: let_weak_cong prod.case_cong_weak)

text \<open>
  For comparison, the same controllers with a producer that emits the same outcomes
  after \<^verbatim>\<open>subscribe\<close> has returned: the first outcome completes the subscriber, the
  teardown unsubscribes from the producer, and the second outcome is not delivered.
\<close>

lemma later_outcomes_set_status_once:
  "status_writes 0 (trace (exec (createSignalAction Part001
        \<lparr>track = None, debounceMs = None, onLoading = None, onSuccess = Some 1, onError = Some 2\<rparr>)
      [(0, Task [Run [JStr ''a''] []]), (1, Settle 0 (Value (JNum 1))),
       (1, Settle 0 (Failure
              (JObj [(''name'', JStr ''HttpErrorResponse''), (''error'', JStr ''denied'')])))]
      (createBaseAction (createSignalAction Part001
        \<lparr>track = None, debounceMs = None, onLoading = None, onSuccess = Some 1, onError = Some 2\<rparr>)
        new_tracker)))
    = [Loading, Success]"
  by (simp add: run_defs status_writes_def statuses_def cong: let_weak_cong prod.case_cong_weak)

section \<open>Parallel producers\<close>

lemma next_cb_values:
  "next_cb c n (iv\<lparr>inv_values := x\<rparr>) d (s\<lparr>subs := (subs s)(n := Some y)\<rparr>) = next_cb c n iv d s"
  by (simp add: next_cb_state)

lemma error_cb_values:
  "error_cb c n (iv\<lparr>inv_values := x\<rparr>) e (s\<lparr>subs := (subs s)(n := Some y)\<rparr>) = error_cb c n iv e s"
  by (simp add: error_cb_state)

lemma forkJoin_deliver_value:
  assumes "getObservable c = ForkJoin f" and "subs s n = Some iv"
    and "k \<in> set (inv_keys iv)" and "map_of (inv_values iv) k = None"
  shows "perform c (SettleNamed n k (Value v)) s
           = (if list_all (\<lambda>k'. map_of (inv_values iv @ [(k, v)]) k' \<noteq> None) (inv_keys iv)
              then next_cb c n iv (forkJoin_result (inv_keys iv) (inv_values iv @ [(k, v)])) s
              else s\<lparr>subs := (subs s)(n := Some (iv\<lparr>inv_values := inv_values iv @ [(k, v)]\<rparr>))\<rparr>)"
  using assms(3,4) unfolding perform.simps forkJoin_deliver_def assms(1) assms(2) Let_def
  by (simp only: producer.case option.case outcome.case simp_thms if_True)

lemma forkJoin_value_waits:
  assumes "getObservable c = ForkJoin f" and "subs s n = Some iv"
    and "k \<in> set (inv_keys iv)" and "map_of (inv_values iv) k = None"
    and "k' \<in> set (inv_keys iv)" and "map_of (inv_values iv @ [(k, v)]) k' = None"
  shows "perform c (SettleNamed n k (Value v)) s
           = s\<lparr>subs := (subs s)(n := Some (iv\<lparr>inv_values := inv_values iv @ [(k, v)]\<rparr>))\<rparr>"
proof -
  have "\<not> list_all (\<lambda>k'. map_of (inv_values iv @ [(k, v)]) k' \<noteq> None) (inv_keys iv)"
    unfolding list_all_iff using assms(5,6) by blast
  then show ?thesis
    unfolding forkJoin_deliver_value [OF assms(1-4)] by (rule if_not_P)
qed

lemma forkJoin_value_completes:
  assumes "getObservable c = ForkJoin f" and "subs s n = Some iv"
    and "k \<in> set (inv_keys iv)" and "map_of (inv_values iv) k = None"
    and "set (inv_keys iv) \<subseteq> fst ` set (inv_values iv @ [(k, v)])"
  shows "perform c (SettleNamed n k (Value v)) s
           = next_cb c n iv (forkJoin_result (inv_keys iv) (inv_values iv @ [(k, v)])) s"
proof -
  have "list_all (\<lambda>k'. map_of (inv_values iv @ [(k, v)]) k' \<noteq> None) (inv_keys iv)"
    unfolding list_all_iff map_of_eq_None_iff using assms(5) by blast
  then show ?thesis
    unfolding forkJoin_deliver_value [OF assms(1-4)] by (rule if_P)
qed

lemma forkJoin_values:
  assumes fj: "getObservable c = ForkJoin f"
  shows "subs s n = Some iv \<Longrightarrow> kvs \<noteq> [] \<Longrightarrow> distinct (map fst (inv_values iv @ kvs)) \<Longrightarrow>
         set (inv_keys iv) = fst ` set (inv_values iv @ kvs) \<Longrightarrow>
         fold (perform c) (map (\<lambda>kv. SettleNamed n (fst kv) (Value (snd kv))) kvs) s
           = next_cb c n iv (forkJoin_result (inv_keys iv) (inv_values iv @ kvs)) s"
proof (induction kvs arbitrary: s iv)
  case Nil
  then show ?case by simp
next
  case (Cons kv rest)
  obtain k v where kv: "kv = (k, v)"
    by (cases kv)
  have k_in: "k \<in> set (inv_keys iv)"
    using Cons.prems(4) by (simp add: kv)
  have k_new: "map_of (inv_values iv) k = None"
    using Cons.prems(3) by (auto simp: kv map_of_eq_None_iff)
  let ?iv = "iv\<lparr>inv_values := inv_values iv @ [(k, v)]\<rparr>"
  let ?s = "s\<lparr>subs := (subs s)(n := Some ?iv)\<rparr>"
  show ?case
  proof (cases "rest = []")
    case True
    have "set (inv_keys iv) \<subseteq> fst ` set (inv_values iv @ [(k, v)])"
      using Cons.prems(4) by (simp add: kv True)
    from forkJoin_value_completes [OF fj Cons.prems(1) k_in k_new this]
    show ?thesis
      by (simp add: kv True del: perform.simps)
  next
    case False
    then obtain k' v' rest' where rest: "rest = (k', v') # rest'"
      by (cases rest) auto
    have k'_in: "k' \<in> set (inv_keys iv)"
      using Cons.prems(4) by (simp add: rest)
    have k'_new: "map_of (inv_values iv @ [(k, v)]) k' = None"
      unfolding map_of_eq_None_iff using Cons.prems(3) by (auto simp: kv rest)
    have step: "perform c (SettleNamed n k (Value v)) s = ?s"
      by (rule forkJoin_value_waits [OF fj Cons.prems(1) k_in k_new k'_in k'_new])
    have "fold (perform c) (map (\<lambda>kv. SettleNamed n (fst kv) (Value (snd kv))) rest) ?s
            = next_cb c n ?iv (forkJoin_result (inv_keys ?iv) (inv_values ?iv @ rest)) ?s"
      by (rule Cons.IH) (use Cons.prems False in \<open>auto simp: kv\<close>)
    then show ?thesis
      by (simp add: kv step next_cb_values del: perform.simps)
  qed
qed

lemma subs_overwrite:
  "s\<lparr>subs := (subs s)(n := x)\<rparr>\<lparr>subs := (subs (s\<lparr>subs := (subs s)(n := x)\<rparr>))(n := y)\<rparr>
     = s\<lparr>subs := (subs s)(n := y)\<rparr>"
  by (rule state.equality) (simp_all add: fun_eq_iff)

lemma forkJoin_partial:
  assumes fj: "getObservable c = ForkJoin f"
  shows "subs s n = Some iv \<Longrightarrow> distinct (map fst (inv_values iv @ kvs)) \<Longrightarrow>
         fst ` set (inv_values iv @ kvs) \<subseteq> set (inv_keys iv) \<Longrightarrow>
         k0 \<in> set (inv_keys iv) \<Longrightarrow> k0 \<notin> fst ` set (inv_values iv @ kvs) \<Longrightarrow>
         fold (perform c) (map (\<lambda>kv. SettleNamed n (fst kv) (Value (snd kv))) kvs) s
           = s\<lparr>subs := (subs s)(n := Some (iv\<lparr>inv_values := inv_values iv @ kvs\<rparr>))\<rparr>"
proof (induction kvs arbitrary: s iv)
  case Nil
  then have "(subs s)(n := Some iv) = subs s"
    by (simp add: fun_upd_idem)
  then show ?case
    by simp
next
  case (Cons kv rest)
  obtain k v where kv: "kv = (k, v)"
    by (cases kv)
  have k_in: "k \<in> set (inv_keys iv)"
    using Cons.prems(3) by (simp add: kv)
  have k_new: "map_of (inv_values iv) k = None"
    using Cons.prems(2) by (auto simp: kv map_of_eq_None_iff)
  let ?iv = "iv\<lparr>inv_values := inv_values iv @ [(k, v)]\<rparr>"
  let ?s = "s\<lparr>subs := (subs s)(n := Some ?iv)\<rparr>"
  have k0_new: "map_of (inv_values iv @ [(k, v)]) k0 = None"
    unfolding map_of_eq_None_iff using Cons.prems(5) by (auto simp: kv)
  have step: "perform c (SettleNamed n k (Value v)) s = ?s"
    by (rule forkJoin_value_waits [OF fj Cons.prems(1) k_in k_new Cons.prems(4) k0_new])
  have "fold (perform c) (map (\<lambda>kv. SettleNamed n (fst kv) (Value (snd kv))) (kv # rest)) s
          = fold (perform c) (map (\<lambda>kv. SettleNamed n (fst kv) (Value (snd kv))) rest)
              (perform c (SettleNamed n k (Value v)) s)"
    by (simp add: kv del: perform.simps)
  also have "\<dots> = fold (perform c) (map (\<lambda>kv. SettleNamed n (fst kv) (Value (snd kv))) rest) ?s"
    by (simp only: step)
  also have "\<dots> = ?s\<lparr>subs := (subs ?s)(n := Some (?iv\<lparr>inv_values := inv_values ?iv @ rest\<rparr>))\<rparr>"
    by (rule Cons.IH) (use Cons.prems in \<open>auto simp: kv\<close>)
  also have "\<dots> = s\<lparr>subs := (subs s)(n := Some (iv\<lparr>inv_values := inv_values iv @ kv # rest\<rparr>))\<rparr>"
    by (rule state.equality) (simp_all add: kv fun_eq_iff)
  finally show ?case .
qed

lemma forkJoin_closed:
  "subs s n = None \<Longrightarrow>
   fold (perform c) (map (\<lambda>ko. SettleNamed n (fst ko) (snd ko)) rest) s = s"
  by (induction rest) (simp_all add: forkJoin_deliver_def split: producer.split)

lemma forkJoin_failure:
  assumes fj: "getObservable c = ForkJoin f" and live: "subs s n = Some iv"
    and d: "distinct (map fst (inv_values iv @ kvs))"
    and sub: "fst ` set (inv_values iv @ kvs) \<subseteq> set (inv_keys iv)"
    and k_in: "k \<in> set (inv_keys iv)" and k_new: "k \<notin> fst ` set (inv_values iv @ kvs)"
  shows "fold (perform c)
           (map (\<lambda>kv. SettleNamed n (fst kv) (Value (snd kv))) kvs
            @ SettleNamed n k (Failure e) # map (\<lambda>ko. SettleNamed n (fst ko) (snd ko)) rest) s
         = error_cb c n iv e s"
proof -
  let ?iv = "iv\<lparr>inv_values := inv_values iv @ kvs\<rparr>"
  let ?s = "s\<lparr>subs := (subs s)(n := Some ?iv)\<rparr>"
  have p: "fold (perform c) (map (\<lambda>kv. SettleNamed n (fst kv) (Value (snd kv))) kvs) s = ?s"
    by (rule forkJoin_partial [OF fj live d sub k_in k_new])
  have "map_of (inv_values iv @ kvs) k = None"
    unfolding map_of_eq_None_iff using k_new .
  then have f: "perform c (SettleNamed n k (Failure e)) ?s = error_cb c n iv e s"
    using fj k_in by (simp add: forkJoin_deliver_def error_cb_values del: map_of_append)
  have "subs (error_cb c n iv e s) n = None"
    by (simp add: error_cb_state)
  from forkJoin_closed [OF this, of c rest] show ?thesis
    by (simp add: p f del: perform.simps)
qed

lemma forkJoin_result_all:
  assumes "fst ` set kvs = set keys"
  shows "forkJoin_result keys kvs = JObj (map (\<lambda>k. (k, the (map_of kvs k))) keys)"
proof -
  have "(case map_of kvs k of Some v \<Rightarrow> v | None \<Rightarrow> JUndefined) = the (map_of kvs k)"
    if "k \<in> set keys" for k
  proof (cases "map_of kvs k")
    case None
    then have "k \<notin> fst ` set kvs"
      by (simp add: map_of_eq_None_iff)
    with that assms show ?thesis
      by simp
  next
    case (Some v)
    then show ?thesis
      by simp
  qed
  then show ?thesis
    by (simp add: forkJoin_result_def)
qed

text \<open>
  The two ways an invocation over named sub-producers ends, from any state in which the
  invocation \<open>n\<close> is subscribed and no sub-producer has delivered yet: every sub-producer
  delivers a value, in any order; or, after values of other sub-producers, one delivers
  a failure, and whatever the sub-producers deliver afterwards has no effect.
\<close>

lemma forkJoin_all_values:
  assumes fj: "getObservable c = ForkJoin f" and live: "subs s n = Some iv"
    and fresh: "inv_values iv = []"
    and kvs: "kvs \<noteq> []" "distinct (map fst kvs)" "fst ` set kvs = set (inv_keys iv)"
  shows "trace (fold (perform c) (map (\<lambda>kv. SettleNamed n (fst kv) (Value (snd kv))) kvs) s)
           = trace s @ map (\<lambda>e. (now s, n, e))
               (success_effects c (heap s (inv_handlers iv))
                  (JObj (map (\<lambda>k. (k, the (map_of kvs k))) (inv_keys iv))) (inv_args iv))"
proof -
  have "fold (perform c) (map (\<lambda>kv. SettleNamed n (fst kv) (Value (snd kv))) kvs) s
          = next_cb c n iv (forkJoin_result (inv_keys iv) (inv_values iv @ kvs)) s"
    by (rule forkJoin_values [OF fj live]) (use kvs fresh in simp_all)
  moreover have "forkJoin_result (inv_keys iv) kvs
          = JObj (map (\<lambda>k. (k, the (map_of kvs k))) (inv_keys iv))"
    by (rule forkJoin_result_all) (use kvs in simp)
  ultimately show ?thesis
    by (simp add: fresh next_cb_state)
qed

lemma forkJoin_first_failure:
  assumes fj: "getObservable c = ForkJoin f" and live: "subs s n = Some iv"
    and fresh: "inv_values iv = []"
    and kvs: "distinct (map fst kvs)" "fst ` set kvs \<subseteq> set (inv_keys iv)"
    and k: "k \<in> set (inv_keys iv)" "k \<notin> fst ` set kvs"
  shows "trace (fold (perform c)
                  (map (\<lambda>kv. SettleNamed n (fst kv) (Value (snd kv))) kvs
                   @ SettleNamed n k (Failure e)
                   # map (\<lambda>ko. SettleNamed n (fst ko) (snd ko)) rest) s)
           = trace s @ map (\<lambda>x. (now s, n, x))
               (failure_effects c (heap s (inv_handlers iv)) e (inv_args iv))"
proof -
  have "fold (perform c)
           (map (\<lambda>kv. SettleNamed n (fst kv) (Value (snd kv))) kvs
            @ SettleNamed n k (Failure e) # map (\<lambda>ko. SettleNamed n (fst ko) (snd ko)) rest) s
         = error_cb c n iv e s"
    by (rule forkJoin_failure [OF fj live]) (use kvs k fresh in simp_all)
  then show ?thesis
    by (simp only: error_cb_state) simp
qed

text \<open>
  One call of \<^verbatim>\<open>run\<close> on a new controller, with the registrations \<open>calls\<close> chained
  on it, at time \<open>t0\<close>. \<open>debounce_wait\<close> is the time the debounce operator waits. Once
  the clock has passed \<open>t0\<close> plus that time the invocation is dispatched and subscribed,
  it awaits the sub-producers that \<open>f\<close> names for the arguments, and its handler
  object is the one the chain wrote to in the first file and an empty one in the second.
\<close>

definition debounce_wait :: "controller \<Rightarrow> nat" where
  "debounce_wait c = (case debounceMs (options c) of None \<Rightarrow> 0 | Some ms \<Rightarrow> nat ms)"

lemma dispatched_state:
  assumes fj: "getObservable c = ForkJoin f"
    and due: "t0 + debounce_wait c < t1"
  shows "subs (exec c [(t0, Task [Run args calls]), (t1, Task [])] (createBaseAction c tr)) 0
           = Some \<lparr>inv_no = 0, inv_args = args,
                   inv_handlers = (case source c of Part000 \<Rightarrow> 1 | Part001 \<Rightarrow> 2),
                   inv_id = randomUUID 0, inv_keys = f args, inv_values = []\<rparr>"
    and "now (exec c [(t0, Task [Run args calls]), (t1, Task [])] (createBaseAction c tr)) = t1"
    and "heap (exec c [(t0, Task [Run args calls]), (t1, Task [])] (createBaseAction c tr))
           (case source c of Part000 \<Rightarrow> 1 | Part001 \<Rightarrow> 2)
         = (case source c of Part000 \<Rightarrow> fold chain_set calls no_handlers | Part001 \<Rightarrow> no_handlers)"
  using assms
  by (cases "source c"; cases "debounceMs (options c)";
      simp add: run_defs debounce_wait_def cong: let_weak_cong prod.case_cong_weak)+

text \<open>
  Claim C1 (amended). The claim as stated fails in the second controller file, where the
  error callback does not receive the sub-producer's error but the string that
  \<^verbatim>\<open>extractErrorMessage\<close> makes of it. What holds, with \<^verbatim>\<open>forkJoin\<close> as the
  specification describes it: a controller built with \<^verbatim>\<open>createSignalForkJoinAction\<close>
  is run once, with registrations \<open>calls\<close> chained on the call, and the invocation has
  been dispatched (state \<open>s0\<close>). If every sub-producer then delivers a value, in any
  order, the effects are the write of success and the controller-level success callback
  called with the one object that holds every value under its producer's name; in the
  first file the success handler of the chain is called with the same object, and the
  finally callback after it. If, after values of other sub-producers, a sub-producer
  delivers a failure \<open>e\<close>, then whatever the sub-producers deliver afterwards, the effects
  are the write of the error signal and of the status and the error callbacks, and no
  success callback is among them. In the first file the error signal, the
  controller-level error callback and the error handler of the chain receive \<open>e\<close>
  itself; in the second file the error signal and the controller-level error callback
  receive the string \<open>extractErrorMessage e\<close>, which is the body of \<open>e\<close> when \<open>e\<close> is
  an \<^verbatim>\<open>HttpErrorResponse\<close> with a string body and the empty string when \<open>e\<close> is not an
  \<^verbatim>\<open>HttpErrorResponse\<close>.
\<close>

theorem forkJoin_all_or_nothing:
  assumes fj: "getObservable c = ForkJoin f"
    and due: "t0 + debounce_wait c < t1"
  shows "let s0 = exec c [(t0, Task [Run args calls]), (t1, Task [])] (createBaseAction c tr);
             h = fold chain_set calls no_handlers
         in (kvs \<noteq> [] \<and> distinct (map fst kvs) \<and> fst ` set kvs = set (f args) \<longrightarrow>
               (let obj = JObj (map (\<lambda>k. (k, the (map_of kvs k))) (f args));
                    s1 = fold (perform c)
                           (map (\<lambda>kv. SettleNamed 0 (fst kv) (Value (snd kv))) kvs) s0
                in (source c = Part000 \<longrightarrow>
                      trace s1 = trace s0 @ map (\<lambda>x. (t1, 0, x))
                        (StatusSet Success
                         # optional_call (\<lambda>cb. OptionsOnSuccess cb obj args) (onSuccess (options c))
                         @ optional_success (success_h h) obj args
                         @ optional_call HandlerFinally (finally_h h)))
                 \<and> (source c = Part001 \<longrightarrow>
                      trace s1 = trace s0 @ map (\<lambda>x. (t1, 0, x))
                        (StatusSet Success
                         # optional_call (\<lambda>cb. OptionsOnSuccess cb obj args)
                             (onSuccess (options c))))))
          \<and> (distinct (map fst kvs) \<and> fst ` set kvs \<subseteq> set (f args)
                \<and> k \<in> set (f args) \<and> k \<notin> fst ` set kvs \<longrightarrow>
               (let s1 = fold (perform c)
                           (map (\<lambda>kv. SettleNamed 0 (fst kv) (Value (snd kv))) kvs
                            @ SettleNamed 0 k (Failure e)
                            # map (\<lambda>ko. SettleNamed 0 (fst ko) (snd ko)) rest) s0
                in (source c = Part000 \<longrightarrow>
                      trace s1 = trace s0 @ map (\<lambda>x. (t1, 0, x))
                        ([ErrorSet (Some e), StatusSet Error]
                         @ optional_call (\<lambda>cb. OptionsOnError cb e args) (onError (options c))
                         @ optional_call (\<lambda>cb. HandlerError cb e args) (error_h h)
                         @ optional_call HandlerFinally (finally_h h)))
                 \<and> (source c = Part001 \<longrightarrow>
                      trace s1 = trace s0 @ map (\<lambda>x. (t1, 0, x))
                        ([ConsoleError (extractErrorMessage e),
                          ErrorSet (Some (JStr (extractErrorMessage e))), StatusSet Error]
                         @ optional_call (\<lambda>cb. OptionsOnError cb (JStr (extractErrorMessage e)) args)
                             (onError (options c))))))
          \<and> (get_prop e ''name'' = JStr ''HttpErrorResponse'' \<and> get_prop e ''error'' = JStr m
                \<longrightarrow> extractErrorMessage e = m)
          \<and> (get_prop e ''name'' \<noteq> JStr ''HttpErrorResponse'' \<longrightarrow> extractErrorMessage e = [])"
proof -
  let ?s0 = "exec c [(t0, Task [Run args calls]), (t1, Task [])] (createBaseAction c tr)"
  let ?iv = "\<lparr>inv_no = 0, inv_args = args,
              inv_handlers = (case source c of Part000 \<Rightarrow> 1 | Part001 \<Rightarrow> 2),
              inv_id = randomUUID 0, inv_keys = f args, inv_values = []\<rparr>"
  note s0 = dispatched_state [OF fj due, of args calls tr]
  have live: "subs ?s0 0 = Some ?iv"
    by (rule s0(1))
  have fresh: "inv_values ?iv = []"
    by simp
  have all_values: "trace (fold (perform c)
                    (map (\<lambda>kv. SettleNamed 0 (fst kv) (Value (snd kv))) kvs) ?s0)
      = trace ?s0 @ map (\<lambda>x. (t1, 0, x))
          (success_effects c
             (case source c of Part000 \<Rightarrow> fold chain_set calls no_handlers | Part001 \<Rightarrow> no_handlers)
             (JObj (map (\<lambda>k. (k, the (map_of kvs k))) (f args))) args)"
    if "kvs \<noteq> [] \<and> distinct (map fst kvs) \<and> fst ` set kvs = set (f args)"
    using forkJoin_all_values [OF fj live fresh, of kvs] that by (simp add: s0(2) s0(3))
  have failure: "trace (fold (perform c)
                    (map (\<lambda>kv. SettleNamed 0 (fst kv) (Value (snd kv))) kvs
                     @ SettleNamed 0 k (Failure e)
                     # map (\<lambda>ko. SettleNamed 0 (fst ko) (snd ko)) rest) ?s0)
      = trace ?s0 @ map (\<lambda>x. (t1, 0, x))
          (failure_effects c
             (case source c of Part000 \<Rightarrow> fold chain_set calls no_handlers | Part001 \<Rightarrow> no_handlers)
             e args)"
    if "distinct (map fst kvs) \<and> fst ` set kvs \<subseteq> set (f args)
          \<and> k \<in> set (f args) \<and> k \<notin> fst ` set kvs"
    using forkJoin_first_failure [OF fj live fresh, of kvs k e rest] that
    by (simp add: s0(2) s0(3))
  have tiers: "(get_prop e ''name'' = JStr ''HttpErrorResponse'' \<and> get_prop e ''error'' = JStr m
                \<longrightarrow> extractErrorMessage e = m)
          \<and> (get_prop e ''name'' \<noteq> JStr ''HttpErrorResponse'' \<longrightarrow> extractErrorMessage e = [])"
    by (simp add: extractErrorMessage_def)
  show ?thesis
    unfolding Let_def
  proof (intro conjI impI)
    assume a: "kvs \<noteq> [] \<and> distinct (map fst kvs) \<and> fst ` set kvs = set (f args)"
      and "source c = Part000"
    with all_values [OF a]
    show "trace (fold (perform c) (map (\<lambda>kv. SettleNamed 0 (fst kv) (Value (snd kv))) kvs) ?s0)
      = trace ?s0 @ map (\<lambda>x. (t1, 0, x))
          (StatusSet Success
           # optional_call (\<lambda>cb. OptionsOnSuccess cb
                 (JObj (map (\<lambda>k. (k, the (map_of kvs k))) (f args))) args) (onSuccess (options c))
           @ optional_success (success_h (fold chain_set calls no_handlers))
               (JObj (map (\<lambda>k. (k, the (map_of kvs k))) (f args))) args
           @ optional_call HandlerFinally (finally_h (fold chain_set calls no_handlers)))"
      by (simp add: success_effects_def)
  next
    assume a: "kvs \<noteq> [] \<and> distinct (map fst kvs) \<and> fst ` set kvs = set (f args)"
      and "source c = Part001"
    with all_values [OF a]
    show "trace (fold (perform c) (map (\<lambda>kv. SettleNamed 0 (fst kv) (Value (snd kv))) kvs) ?s0)
      = trace ?s0 @ map (\<lambda>x. (t1, 0, x))
          (StatusSet Success
           # optional_call (\<lambda>cb. OptionsOnSuccess cb
                 (JObj (map (\<lambda>k. (k, the (map_of kvs k))) (f args))) args) (onSuccess (options c)))"
      by (simp add: success_effects_def no_handlers_def)
  next
    assume a: "distinct (map fst kvs) \<and> fst ` set kvs \<subseteq> set (f args)
          \<and> k \<in> set (f args) \<and> k \<notin> fst ` set kvs"
      and "source c = Part000"
    with failure [OF a]
    show "trace (fold (perform c)
                  (map (\<lambda>kv. SettleNamed 0 (fst kv) (Value (snd kv))) kvs
                   @ SettleNamed 0 k (Failure e)
                   # map (\<lambda>ko. SettleNamed 0 (fst ko) (snd ko)) rest) ?s0)
      = trace ?s0 @ map (\<lambda>x. (t1, 0, x))
          ([ErrorSet (Some e), StatusSet Error]
           @ optional_call (\<lambda>cb. OptionsOnError cb e args) (onError (options c))
           @ optional_call (\<lambda>cb. HandlerError cb e args) (error_h (fold chain_set calls no_handlers))
           @ optional_call HandlerFinally (finally_h (fold chain_set calls no_handlers)))"
      by (simp add: failure_effects_def reported_def)
  next
    assume a: "distinct (map fst kvs) \<and> fst ` set kvs \<subseteq> set (f args)
          \<and> k \<in> set (f args) \<and> k \<notin> fst ` set kvs"
      and "source c = Part001"
    with failure [OF a]
    show "trace (fold (perform c)
                  (map (\<lambda>kv. SettleNamed 0 (fst kv) (Value (snd kv))) kvs
                   @ SettleNamed 0 k (Failure e)
                   # map (\<lambda>ko. SettleNamed 0 (fst ko) (snd ko)) rest) ?s0)
      = trace ?s0 @ map (\<lambda>x. (t1, 0, x))
          ([ConsoleError (extractErrorMessage e),
            ErrorSet (Some (JStr (extractErrorMessage e))), StatusSet Error]
           @ optional_call (\<lambda>cb. OptionsOnError cb (JStr (extractErrorMessage e)) args)
               (onError (options c)))"
      by (simp add: failure_effects_def reported_def no_handlers_def)
  next
    assume "get_prop e ''name'' = JStr ''HttpErrorResponse'' \<and> get_prop e ''error'' = JStr m"
    with tiers show "extractErrorMessage e = m"
      by blast
  next
    assume "get_prop e ''name'' \<noteq> JStr ''HttpErrorResponse''"
    with tiers show "extractErrorMessage e = []"
      by blast
  qed
qed

theorem forkJoin_all_or_nothing_witness:
  "getObservable (getUserData Part000) = ForkJoin (\<lambda>request. [''user'', ''posts''])
   \<and> 0 + debounce_wait (getUserData Part000) < 1
   \<and> source (getUserData Part000) = Part000
   \<and> distinct (map fst [(''posts'', JNum 2), (''user'', JNum 1)])
   \<and> fst ` set [(''posts'', JNum 2), (''user'', JNum 1)] = set [''user'', ''posts'']
   \<and> trace (fold (perform (getUserData Part000))
          [SettleNamed 0 ''posts'' (Value (JNum 2)), SettleNamed 0 ''user'' (Value (JNum 1))]
          (exec (getUserData Part000)
            [(0, Task [Run [JStr ''u1''] [OnSuccess 3, OnError 4]]), (1, Task [])]
            (createBaseAction (getUserData Part000) new_tracker)))
       = [(0, 0, StatusSet Loading), (0, 0, ErrorSet None), (0, 0, Subscribe [JStr ''u1'']),
          (1, 0, StatusSet Success),
          (1, 0, OptionsOnSuccess 1 (JObj [(''user'', JNum 1), (''posts'', JNum 2)]) [JStr ''u1'']),
          (1, 0, HandlerSuccess 3 (JObj [(''user'', JNum 1), (''posts'', JNum 2)]) [JStr ''u1''])]
   \<and> ''posts'' \<in> set [''user'', ''posts'']
   \<and> ''posts'' \<notin> fst ` set [(''user'', JNum 1)]
   \<and> trace (fold (perform (getUserData Part000))
          [SettleNamed 0 ''user'' (Value (JNum 1)), SettleNamed 0 ''posts'' (Failure (JStr ''boom'')),
           SettleNamed 0 ''user'' (Value (JNum 1))]
          (exec (getUserData Part000)
            [(0, Task [Run [JStr ''u1''] [OnSuccess 3, OnError 4]]), (1, Task [])]
            (createBaseAction (getUserData Part000) new_tracker)))
       = [(0, 0, StatusSet Loading), (0, 0, ErrorSet None), (0, 0, Subscribe [JStr ''u1'']),
          (1, 0, ErrorSet (Some (JStr ''boom''))), (1, 0, StatusSet Error),
          (1, 0, OptionsOnError 2 (JStr ''boom'') [JStr ''u1'']),
          (1, 0, HandlerError 4 (JStr ''boom'') [JStr ''u1''])]
   \<and> getObservable (getUserData Part001) = ForkJoin (\<lambda>request. [''user'', ''posts''])
   \<and> 0 + debounce_wait (getUserData Part001) < 1
   \<and> source (getUserData Part001) = Part001
   \<and> get_prop (JObj [(''name'', JStr ''HttpErrorResponse''), (''error'', JStr ''denied'')]) ''name''
        = JStr ''HttpErrorResponse''
   \<and> get_prop (JObj [(''name'', JStr ''HttpErrorResponse''), (''error'', JStr ''denied'')]) ''error''
        = JStr ''denied''
   \<and> trace (fold (perform (getUserData Part001))
          [SettleNamed 0 ''user'' (Value (JNum 1)),
           SettleNamed 0 ''posts''
             (Failure (JObj [(''name'', JStr ''HttpErrorResponse''), (''error'', JStr ''denied'')])),
           SettleNamed 0 ''user'' (Value (JNum 1))]
          (exec (getUserData Part001)
            [(0, Task [Run [JStr ''u1''] []]), (1, Task [])]
            (createBaseAction (getUserData Part001) new_tracker)))
       = [(0, 0, StatusSet Loading), (0, 0, ErrorSet None), (0, 0, Subscribe [JStr ''u1'']),
          (1, 0, ConsoleError ''denied''), (1, 0, ErrorSet (Some (JStr ''denied''))),
          (1, 0, StatusSet Error), (1, 0, OptionsOnError 2 (JStr ''denied'') [JStr ''u1''])]"
proof -
  have fj0: "getObservable (getUserData Part000) = ForkJoin (\<lambda>request. [''user'', ''posts''])"
    by (simp add: getUserData_def createSignalForkJoinAction_def)
  have fj1: "getObservable (getUserData Part001) = ForkJoin (\<lambda>request. [''user'', ''posts''])"
    by (simp add: getUserData_def createSignalForkJoinAction_def)
  have due0: "0 + debounce_wait (getUserData Part000) < 1"
    by (simp add: getUserData_def createSignalForkJoinAction_def debounce_wait_def)
  have due1: "0 + debounce_wait (getUserData Part001) < 1"
    by (simp add: getUserData_def createSignalForkJoinAction_def debounce_wait_def)
  have keys: "fst ` set [(''posts'', JNum 2), (''user'', JNum 1)] = set [''user'', ''posts'']"
    by auto
  note all = forkJoin_all_or_nothing [OF fj0 due0,
      where kvs = "[(''posts'', JNum 2), (''user'', JNum 1)]" and args = "[JStr ''u1'']"
        and calls = "[OnSuccess 3, OnError 4]" and tr = new_tracker]
  note nothing = forkJoin_all_or_nothing [OF fj0 due0,
      where kvs = "[(''user'', JNum 1)]" and k = "''posts''" and e = "JStr ''boom''"
        and rest = "[(''user'', Value (JNum 1))]" and args = "[JStr ''u1'']"
        and calls = "[OnSuccess 3, OnError 4]" and tr = new_tracker]
  note message = forkJoin_all_or_nothing [OF fj1 due1,
      where kvs = "[(''user'', JNum 1)]" and k = "''posts''"
        and e = "JObj [(''name'', JStr ''HttpErrorResponse''), (''error'', JStr ''denied'')]"
        and m = "''denied''"
        and rest = "[(''user'', Value (JNum 1))]" and args = "[JStr ''u1'']"
        and calls = "[]" and tr = new_tracker]
  from all nothing message fj0 fj1 due0 due1 keys show ?thesis
    by (simp add: getUserData_def run_defs extractErrorMessage_def
        cong: let_weak_cong prod.case_cong_weak)
qed

text \<open>
  The claim as stated, refuted. In the second controller file, the sub-producer
  \<^verbatim>\<open>posts\<close> fails with an \<^verbatim>\<open>Error\<close> whose message is \<^verbatim>\<open>boom\<close>: the controller-level
  error callback is called with the empty string, not with the error of the
  sub-producer.
\<close>

theorem forkJoin_error_callback_gets_message_part001:
  "trace (exec (getUserData Part001)
      [(0, Task [Run [JStr ''u1''] []]), (1, SettleNamed 0 ''user'' (Value (JNum 1))),
       (2, SettleNamed 0 ''posts''
             (Failure (JObj [(''name'', JStr ''Error''), (''message'', JStr ''boom'')])))]
      (createBaseAction (getUserData Part001) new_tracker))
    = [(0, 0, StatusSet Loading), (0, 0, ErrorSet None), (0, 0, Subscribe [JStr ''u1'']),
       (2, 0, ConsoleError []), (2, 0, ErrorSet (Some (JStr []))), (2, 0, StatusSet Error),
       (2, 0, OptionsOnError 2 (JStr []) [JStr ''u1''])]"
  by (simp add: getUserData_def run_defs extractErrorMessage_def
      cong: let_weak_cong prod.case_cong_weak)

section \<open>Producer failures\<close>

text \<open>
  Claim C5 (amended). \<^verbatim>\<open>extractErrorMessage\<close> has three tiers: for a failure named
  \<^verbatim>\<open>HttpErrorResponse\<close> whose \<^verbatim>\<open>error\<close> field is a string, that string; for one whose
  \<^verbatim>\<open>error\<close> field is not a string but has a string field \<^verbatim>\<open>error\<close>, that string (the
  two cases exclude each other); for anything else the empty string. The second
  controller file reports this string, the first file reports the failure value as it is.
  In both, the reported value is stored in the error signal, passed to the tracker when
  the controller is tracked, and passed to the controller-level error callback and the
  invocation's error handler; the status becomes error.
\<close>

theorem failure_value_reported:
  "(get_prop err ''name'' = JStr ''HttpErrorResponse'' \<and> get_prop err ''error'' = JStr m
      \<longrightarrow> extractErrorMessage err = m)
   \<and> (get_prop err ''name'' = JStr ''HttpErrorResponse'' \<and> \<not> typeof_string (get_prop err ''error'')
       \<and> get_prop (get_prop err ''error'') ''error'' = JStr m
      \<longrightarrow> extractErrorMessage err = m)
   \<and> (get_prop err ''name'' \<noteq> JStr ''HttpErrorResponse''
       \<or> (\<not> typeof_string (get_prop err ''error'')
          \<and> \<not> typeof_string (get_prop (get_prop err ''error'') ''error''))
      \<longrightarrow> extractErrorMessage err = [])
   \<and> (subs s n = Some iv \<longrightarrow>
        (let r = (case source c of Part000 \<Rightarrow> err | Part001 \<Rightarrow> JStr (extractErrorMessage err));
             s' = deliver c n (Failure err) s
         in error s' = Some r \<and> status s' = Error
            \<and> (track (options c) \<noteq> Some False \<longrightarrow> lastError (tracker s') = Some r)
            \<and> trace s' = trace s @ map (\<lambda>e. (now s, n, e))
                 ((case source c of Part000 \<Rightarrow> []
                   | Part001 \<Rightarrow> [ConsoleError (extractErrorMessage err)])
                  @ [ErrorSet (Some r), StatusSet Error]
                  @ optional_call (\<lambda>cb. OptionsOnError cb r (inv_args iv)) (onError (options c))
                  @ optional_call (\<lambda>cb. HandlerError cb r (inv_args iv))
                      (error_h (heap s (inv_handlers iv)))
                  @ optional_call HandlerFinally (finally_h (heap s (inv_handlers iv))))))"
proof -
  have tiers: "(get_prop err ''name'' = JStr ''HttpErrorResponse'' \<and> get_prop err ''error'' = JStr m
      \<longrightarrow> extractErrorMessage err = m)
   \<and> (get_prop err ''name'' = JStr ''HttpErrorResponse'' \<and> \<not> typeof_string (get_prop err ''error'')
       \<and> get_prop (get_prop err ''error'') ''error'' = JStr m
      \<longrightarrow> extractErrorMessage err = m)
   \<and> (get_prop err ''name'' \<noteq> JStr ''HttpErrorResponse''
       \<or> (\<not> typeof_string (get_prop err ''error'')
          \<and> \<not> typeof_string (get_prop (get_prop err ''error'') ''error''))
      \<longrightarrow> extractErrorMessage err = [])"
    by (auto simp: extractErrorMessage_def)
  have report: "let r = (case source c of Part000 \<Rightarrow> err | Part001 \<Rightarrow> JStr (extractErrorMessage err));
             s' = deliver c n (Failure err) s
         in error s' = Some r \<and> status s' = Error
            \<and> (track (options c) \<noteq> Some False \<longrightarrow> lastError (tracker s') = Some r)
            \<and> trace s' = trace s @ map (\<lambda>e. (now s, n, e))
                 ((case source c of Part000 \<Rightarrow> []
                   | Part001 \<Rightarrow> [ConsoleError (extractErrorMessage err)])
                  @ [ErrorSet (Some r), StatusSet Error]
                  @ optional_call (\<lambda>cb. OptionsOnError cb r (inv_args iv)) (onError (options c))
                  @ optional_call (\<lambda>cb. HandlerError cb r (inv_args iv))
                      (error_h (heap s (inv_handlers iv)))
                  @ optional_call HandlerFinally (finally_h (heap s (inv_handlers iv))))"
    if "subs s n = Some iv"
    using that
    by (simp add: deliver_def error_cb_state failure_effects_def reported_def lastError_def
        tracker_error_def Let_def)
  from tiers report show ?thesis
    by blast
qed

theorem failure_value_reported_witness:
  "get_prop (JObj [(''name'', JStr ''HttpErrorResponse''), (''error'', JStr ''denied'')]) ''name''
     = JStr ''HttpErrorResponse''
   \<and> get_prop (JObj [(''name'', JStr ''HttpErrorResponse''), (''error'', JStr ''denied'')]) ''error''
     = JStr ''denied''
   \<and> extractErrorMessage (JObj [(''name'', JStr ''HttpErrorResponse''), (''error'', JStr ''denied'')])
     = ''denied''
   \<and> subs (exec (fetchUser Part001) [(0, Task [Run [JStr ''u1''] [OnError 4]])]
          (createBaseAction (fetchUser Part001) new_tracker)) 0
     = Some \<lparr>inv_no = 0, inv_args = [JStr ''u1''], inv_handlers = 2, inv_id = randomUUID 0,
             inv_keys = [], inv_values = []\<rparr>
   \<and> track (options (fetchUser Part001)) \<noteq> Some False
   \<and> error (deliver (fetchUser Part001) 0
        (Failure (JObj [(''name'', JStr ''HttpErrorResponse''), (''error'', JStr ''denied'')]))
        (exec (fetchUser Part001) [(0, Task [Run [JStr ''u1''] [OnError 4]])]
          (createBaseAction (fetchUser Part001) new_tracker)))
     = Some (JStr ''denied'')
   \<and> lastError (tracker (deliver (fetchUser Part001) 0
        (Failure (JObj [(''name'', JStr ''HttpErrorResponse''), (''error'', JStr ''denied'')]))
        (exec (fetchUser Part001) [(0, Task [Run [JStr ''u1''] [OnError 4]])]
          (createBaseAction (fetchUser Part001) new_tracker))))
     = Some (JStr ''denied'')"
proof -
  have live: "subs (exec (fetchUser Part001) [(0, Task [Run [JStr ''u1''] [OnError 4]])]
          (createBaseAction (fetchUser Part001) new_tracker)) 0
     = Some \<lparr>inv_no = 0, inv_args = [JStr ''u1''], inv_handlers = 2, inv_id = randomUUID 0,
             inv_keys = [], inv_values = []\<rparr>"
    by (simp add: fetchUser_def run_defs cong: let_weak_cong prod.case_cong_weak)
  note use = failure_value_reported [where c = "fetchUser Part001" and n = 0
      and err = "JObj [(''name'', JStr ''HttpErrorResponse''), (''error'', JStr ''denied'')]"
      and m = "''denied''"
      and s = "exec (fetchUser Part001) [(0, Task [Run [JStr ''u1''] [OnError 4]])]
          (createBaseAction (fetchUser Part001) new_tracker)"
      and iv = "\<lparr>inv_no = 0, inv_args = [JStr ''u1''], inv_handlers = 2, inv_id = randomUUID 0,
             inv_keys = [], inv_values = []\<rparr>"]
  from use live show ?thesis
    by (simp add: fetchUser_def run_defs extractErrorMessage_def lastError_def tracker_error_def
        tracker_begin_def cong: let_weak_cong prod.case_cong_weak)
qed

text \<open>
  The claim as stated, refuted: for a failure that is not an \<^verbatim>\<open>HttpErrorResponse\<close> the
  message is the empty string, not a non-empty fallback.
\<close>

theorem fallback_message_is_empty:
  "extractErrorMessage (JObj [(''name'', JStr ''TypeError''), (''message'', JStr ''boom'')]) = []
   \<and> extractErrorMessage (JStr ''boom'') = []"
  by (simp add: extractErrorMessage_def)

end
